theory Spec2Isabelle
  imports Main
begin

section \<open>Python values, errors and builtins used by seller.py and market.py\<close>

text \<open>
  The exceptions the modelled code can raise. \<open>RequestException\<close> stands for whatever
  \<open>requests\<close> raises (\<open>raise_for_status\<close>, connection errors).
\<close>

datatype error = ValueError | TypeError | AttributeError | RequestException

text \<open>
  A spreadsheet cell as \<open>pandas.read_excel(...).to_dict(orient="records")\<close> hands it to the
  code: a string (here the UTF-8 bytes of its characters), an integer, or \<open>None\<close> (what
  \<open>dict.get\<close> returns for a missing key). The integers pandas reads from a sheet fit in 64
  bits, so \<open>str\<close> of a cell never meets the limit on digits. Floating-point cells are
  outside the model.
\<close>

datatype pyval = PNone | PInt int | PStr string

text \<open>
  One row of the feed. The three fields are the values of \<open>watch.get(k)\<close> for the three
  Cyrillic keys the code reads (the code, the quantity and the price of a watch), written here
  in transliteration.
\<close>

record remnant =
  kod :: pyval
  kolichestvo :: pyval
  tsena :: pyval

text \<open>\<open>str(n)\<close> for a natural number: its decimal digits.\<close>

fun str_nat :: "nat \<Rightarrow> string" where
  "str_nat n =
     (if n < 10 then [char_of (48 + n)]
      else str_nat (n div 10) @ [char_of (48 + n mod 10)])"

declare str_nat.simps [simp del]

definition str_int :: "int \<Rightarrow> string" where
  "str_int i = (if i < 0 then CHR ''-'' # str_nat (nat (- i)) else str_nat (nat i))"

text \<open>\<open>str(v)\<close>.\<close>

fun py_str :: "pyval \<Rightarrow> string" where
  "py_str PNone = ''None''"
| "py_str (PInt i) = str_int i"
| "py_str (PStr s) = s"

definition is_digit :: "char \<Rightarrow> bool" where
  "is_digit c = (48 \<le> (of_char c :: nat) \<and> (of_char c :: nat) \<le> 57)"

text \<open>
  Python strings are sequences of Unicode code points; a \<open>string\<close> of this theory holds their
  UTF-8 bytes. \<open>utf8_decode\<close> reads the code points back from the byte values: a lead byte
  with its continuation bytes is one code point (shortest form only, no surrogate); a byte
  that does not start such a sequence is taken as the code point of its own value.
\<close>

definition is_cont :: "nat \<Rightarrow> bool" where
  "is_cont b = (128 \<le> b \<and> b < 192)"

definition utf8_2 :: "nat \<Rightarrow> nat \<Rightarrow> nat option" where
  "utf8_2 b c1 =
     (if 194 \<le> b \<and> b < 224 \<and> is_cont c1 then Some ((b - 192) * 64 + (c1 - 128)) else None)"

definition utf8_3 :: "nat \<Rightarrow> nat \<Rightarrow> nat \<Rightarrow> nat option" where
  "utf8_3 b c1 c2 =
     (let cp = ((b - 224) * 64 + (c1 - 128)) * 64 + (c2 - 128)
      in if 224 \<le> b \<and> b < 240 \<and> is_cont c1 \<and> is_cont c2 \<and> 2048 \<le> cp
            \<and> \<not> (55296 \<le> cp \<and> cp < 57344)
         then Some cp else None)"

definition utf8_4 :: "nat \<Rightarrow> nat \<Rightarrow> nat \<Rightarrow> nat \<Rightarrow> nat option" where
  "utf8_4 b c1 c2 c3 =
     (let cp = (((b - 240) * 64 + (c1 - 128)) * 64 + (c2 - 128)) * 64 + (c3 - 128)
      in if 240 \<le> b \<and> b < 248 \<and> is_cont c1 \<and> is_cont c2 \<and> is_cont c3
            \<and> 65536 \<le> cp \<and> cp < 1114112
         then Some cp else None)"

fun utf8_decode :: "nat list \<Rightarrow> nat list" where
  "utf8_decode (b # c1 # c2 # c3 # bs) =
     (case utf8_2 b c1 of
        Some cp \<Rightarrow> cp # utf8_decode (c2 # c3 # bs)
      | None \<Rightarrow>
          (case utf8_3 b c1 c2 of
             Some cp \<Rightarrow> cp # utf8_decode (c3 # bs)
           | None \<Rightarrow>
               (case utf8_4 b c1 c2 c3 of
                  Some cp \<Rightarrow> cp # utf8_decode bs
                | None \<Rightarrow> b # utf8_decode (c1 # c2 # c3 # bs))))"
| "utf8_decode [b, c1, c2] =
     (case utf8_2 b c1 of
        Some cp \<Rightarrow> cp # utf8_decode [c2]
      | None \<Rightarrow>
          (case utf8_3 b c1 c2 of
             Some cp \<Rightarrow> [cp]
           | None \<Rightarrow> b # utf8_decode [c1, c2]))"
| "utf8_decode [b, c1] =
     (case utf8_2 b c1 of
        Some cp \<Rightarrow> [cp]
      | None \<Rightarrow> b # utf8_decode [c1])"
| "utf8_decode [b] = [b]"
| "utf8_decode [] = []"

text \<open>
  The blanks \<open>int()\<close> skips around a literal. In the ASCII range they are the tab, the line
  feed, the vertical tab, the form feed, the carriage return and the space; the separators 0x1C
  to 0x1F are not among them. Beyond ASCII they are the white space characters of Unicode.
\<close>

definition ascii_blank :: "nat \<Rightarrow> bool" where
  "ascii_blank c = (c \<in> {9, 10, 11, 12, 13, 32})"

definition unicode_blank :: "nat \<Rightarrow> bool" where
  "unicode_blank c =
     (c \<in> {0x85, 0xA0, 0x1680, 0x2028, 0x2029, 0x202F, 0x205F, 0x3000}
      \<or> (0x2000 \<le> c \<and> c \<le> 0x200A))"

text \<open>
  The decimal digits beyond ASCII (Unicode 14.0, the database of CPython 3.11): each entry is
  the code point of a digit zero, followed in the code space by its digits one to nine.
\<close>

definition decimal_zeros :: "nat list" where
  "decimal_zeros =
     [1632, 1776, 1984, 2406, 2534, 2662, 2790, 2918, 3046, 3174, 3302, 3430, 3558, 3664,
      3792, 3872, 4160, 4240, 6112, 6160, 6470, 6608, 6784, 6800, 6992, 7088, 7232, 7248,
      42528, 43216, 43264, 43472, 43504, 43600, 44016, 65296, 66720, 68912, 69734, 69872,
      69942, 70096, 70384, 70736, 70864, 71248, 71360, 71472, 71904, 72016, 72784, 73040,
      73120, 92768, 92864, 93008, 120782, 120792, 120802, 120812, 120822, 123200, 123632,
      125264, 130032]"

definition unicode_decimal :: "nat \<Rightarrow> nat option" where
  "unicode_decimal c =
     map_option (\<lambda>z. c - z) (find (\<lambda>z. z \<le> c \<and> c < z + 10) decimal_zeros)"

text \<open>
  What \<open>int()\<close> does to a character before it parses: a code point below 127 is kept, a
  Unicode blank becomes a space, a Unicode decimal digit becomes its ASCII digit, and any
  other character makes the conversion fail.
\<close>

definition to_ascii :: "nat \<Rightarrow> nat option" where
  "to_ascii c =
     (if c < 127 then Some c
      else if unicode_blank c then Some 32
      else map_option (\<lambda>d. 48 + d) (unicode_decimal c))"

definition py_strip :: "nat list \<Rightarrow> nat list" where
  "py_strip s = rev (dropWhile ascii_blank (rev (dropWhile ascii_blank s)))"

text \<open>
  The largest number of digits \<open>int()\<close> and \<open>str()\<close> convert: the default of
  \<open>sys.int_max_str_digits\<close>.
\<close>

definition max_str_digits :: nat where
  "max_str_digits = 4300"

text \<open>
  The digits of a decimal literal, read left to right. A single underscore is accepted
  between two digits; the flag says whether the previous character was a digit, and the
  digits are counted (the underscores are not) for the limit.
\<close>

fun int_digits :: "bool \<Rightarrow> nat \<Rightarrow> nat \<Rightarrow> nat list \<Rightarrow> nat option" where
  "int_digits prev_digit ndigits acc [] =
     (if prev_digit \<and> ndigits \<le> max_str_digits then Some acc else None)"
| "int_digits prev_digit ndigits acc (c # cs) =
     (if 48 \<le> c \<and> c \<le> 57 then int_digits True (Suc ndigits) (10 * acc + (c - 48)) cs
      else if c = 95 \<and> prev_digit then int_digits False ndigits acc cs
      else None)"

text \<open>
  \<open>int(s)\<close> for a string, in base ten: the characters are brought to ASCII, the blanks
  around the literal are skipped, one sign is allowed, and the rest must be digits, at most
  \<open>max_str_digits\<close> of them. \<open>None\<close> is Python's \<open>ValueError\<close>.
\<close>

definition int_of_str :: "string \<Rightarrow> int option" where
  "int_of_str s =
     (case those (map to_ascii (utf8_decode (map of_char s))) of
        None \<Rightarrow> None
      | Some a \<Rightarrow>
          (case py_strip a of
             [] \<Rightarrow> None
           | c # cs \<Rightarrow>
               if c = 45 then map_option (\<lambda>n. - int n) (int_digits False 0 0 cs)
               else if c = 43 then map_option int (int_digits False 0 0 cs)
               else map_option int (int_digits False 0 0 (c # cs))))"

text \<open>\<open>int(v)\<close>: \<open>int(None)\<close> raises \<open>TypeError\<close>, a malformed string \<open>ValueError\<close>.\<close>

fun py_int :: "pyval \<Rightarrow> error + int" where
  "py_int PNone = Inl TypeError"
| "py_int (PInt i) = Inr i"
| "py_int (PStr s) = (case int_of_str s of None \<Rightarrow> Inl ValueError | Some i \<Rightarrow> Inr i)"

text \<open>\<open>s.split(sep)\<close> for a one-character separator: never the empty list.\<close>

fun py_split :: "char \<Rightarrow> string \<Rightarrow> string list" where
  "py_split sep [] = [[]]"
| "py_split sep (c # cs) =
     (if c = sep then [] # py_split sep cs
      else (case py_split sep cs of
              [] \<Rightarrow> [[c]]
            | p # ps \<Rightarrow> (c # p) # ps))"

text \<open>\<open>re.sub("[^0-9]", "", s)\<close>: every character outside \<open>0-9\<close> is deleted.\<close>

definition re_sub_non_digits :: "string \<Rightarrow> string" where
  "re_sub_non_digits s = filter is_digit s"

text \<open>
  \<open>range(start, stop, step)\<close> as a list: a zero step raises \<open>ValueError\<close>, a positive
  step counts up while below \<open>stop\<close>, a negative one counts down while above it.
\<close>

definition py_range :: "int \<Rightarrow> int \<Rightarrow> int \<Rightarrow> error + int list" where
  "py_range start stop step =
     (if step = 0 then Inl ValueError
      else if 0 < step then
        Inr (map (\<lambda>k. start + int k * step) [0..<nat ((stop - start + step - 1) div step)])
      else
        Inr (map (\<lambda>k. start + int k * step) [0..<nat ((start - stop - step - 1) div (- step))]))"

text \<open>\<open>lst[i:j]\<close>: negative indices count from the end, both are clamped to the list.\<close>

definition py_slice :: "'a list \<Rightarrow> int \<Rightarrow> int \<Rightarrow> 'a list" where
  "py_slice lst i j =
     (let n = int (length lst);
          lo = (if i < 0 then max 0 (i + n) else min i n);
          hi = (if j < 0 then max 0 (j + n) else min j n)
      in take (nat (hi - lo)) (drop (nat lo) lst))"

section \<open>seller.py: price_conversion and divide\<close>

text \<open>\<open>re.sub("[^0-9]", "", price.split(".")[0])\<close> (seller.py, line 233).\<close>

definition price_conversion :: "string \<Rightarrow> string" where
  "price_conversion price = re_sub_non_digits (hd (py_split (CHR ''.'') price))"

text \<open>
  The value \<open>create_prices\<close> passes is \<open>watch.get(...)\<close>: anything but a string has no
  \<open>split\<close> and raises \<open>AttributeError\<close>.
\<close>

fun price_conversion_val :: "pyval \<Rightarrow> error + string" where
  "price_conversion_val (PStr s) = Inr (price_conversion s)"
| "price_conversion_val PNone = Inl AttributeError"
| "price_conversion_val (PInt i) = Inl AttributeError"

text \<open>
  The spec's example price: the bytes of \<open>19'990.00\<close>, a space, the three Cyrillic
  letters of the currency in UTF-8, and a final point.
\<close>

definition example_price :: string where
  "example_price = ''19'' @ [CHR 0x27] @ ''990.00 '' @
     [CHR 0xD1, CHR 0x80, CHR 0xD1, CHR 0x83, CHR 0xD0, CHR 0xB1] @ ''.''"

text \<open>
  \<open>list(divide(lst, n))\<close> (seller.py, lines 247-248): the generator run to its end, as
  every call site does. The error of \<open>range\<close> surfaces when the generator is first advanced.
\<close>

definition divide :: "'a list \<Rightarrow> int \<Rightarrow> error + 'a list list" where
  "divide lst n =
     (case py_range 0 (int (length lst)) n of
        Inl e \<Rightarrow> Inl e
      | Inr idx \<Rightarrow> Inr (map (\<lambda>i. py_slice lst i (i + n)) idx))"

section \<open>seller.py and market.py: the reconciliation functions\<close>

text \<open>
  The quantity rule, written out twice in the source with the same text (seller.py, lines
  174-180; market.py, lines 153-159): \<open>count = str(q)\<close>, the two sentinels, and otherwise
  \<open>int(q)\<close> of the raw cell.
\<close>

definition resolve_stock :: "pyval \<Rightarrow> error + int" where
  "resolve_stock q =
     (let count = py_str q
      in if count = ''>10'' then Inr 100
         else if count = ''1'' then Inr 0
         else py_int q)"

text \<open>The dictionary \<open>{"offer_id": ..., "stock": ...}\<close> of seller.py.\<close>

record seller_stock =
  offer_id :: string
  stock :: int

text \<open>
  The first loop of \<open>create_stocks\<close> (seller.py, lines 172-182). The list \<open>offer_ids\<close> is
  mutated in place by \<open>offer_ids.remove\<close>, which deletes the first occurrence; the model
  passes the list along and returns it with the records.
\<close>

fun seller_stocks_loop ::
  "remnant list \<Rightarrow> string list \<Rightarrow> seller_stock list \<Rightarrow> error + seller_stock list \<times> string list"
where
  "seller_stocks_loop [] offer_ids stocks = Inr (stocks, offer_ids)"
| "seller_stocks_loop (watch # rest) offer_ids stocks =
     (if py_str (kod watch) \<in> set offer_ids then
        (case resolve_stock (kolichestvo watch) of
           Inl e \<Rightarrow> Inl e
         | Inr st \<Rightarrow>
             seller_stocks_loop rest (remove1 (py_str (kod watch)) offer_ids)
               (stocks @ [\<lparr>offer_id = py_str (kod watch), stock = st\<rparr>]))
      else seller_stocks_loop rest offer_ids stocks)"

text \<open>
  \<open>create_stocks\<close> of seller.py (lines 171-186): the first loop, then one record with
  stock 0 for every identifier left in the list. The second component of the result is the
  caller's list as the call leaves it.
\<close>

definition seller_create_stocks ::
  "remnant list \<Rightarrow> string list \<Rightarrow> error + seller_stock list \<times> string list"
where
  "seller_create_stocks watch_remnants offer_ids =
     (case seller_stocks_loop watch_remnants offer_ids [] of
        Inl e \<Rightarrow> Inl e
      | Inr (stocks, offer_ids') \<Rightarrow>
          Inr (stocks @ map (\<lambda>i. \<lparr>offer_id = i, stock = 0\<rparr>) offer_ids', offer_ids'))"

text \<open>
  The record of market.py: \<open>{"sku", "warehouseId", "items": [{"count", "type",
  "updatedAt"}]}\<close>. The key \<open>items\<close> is the field \<open>stock_items\<close>, the key \<open>type\<close> the field
  \<open>item_type\<close>.
\<close>

record market_item =
  count :: int
  item_type :: string
  updatedAt :: string

record market_stock =
  sku :: string
  warehouseId :: string
  stock_items :: "market_item list"

text \<open>
  The first loop of \<open>create_stocks\<close> of market.py (lines 151-173). \<open>date\<close> is the
  timestamp read from the clock on line 150.
\<close>

fun market_stocks_loop ::
  "string \<Rightarrow> string \<Rightarrow> remnant list \<Rightarrow> string list \<Rightarrow> market_stock list
     \<Rightarrow> error + market_stock list \<times> string list"
where
  "market_stocks_loop warehouse_id date [] offer_ids stocks = Inr (stocks, offer_ids)"
| "market_stocks_loop warehouse_id date (watch # rest) offer_ids stocks =
     (if py_str (kod watch) \<in> set offer_ids then
        (case resolve_stock (kolichestvo watch) of
           Inl e \<Rightarrow> Inl e
         | Inr st \<Rightarrow>
             market_stocks_loop warehouse_id date rest (remove1 (py_str (kod watch)) offer_ids)
               (stocks @ [\<lparr>sku = py_str (kod watch), warehouseId = warehouse_id,
                   stock_items = [\<lparr>count = st, item_type = ''FIT'', updatedAt = date\<rparr>]\<rparr>]))
      else market_stocks_loop warehouse_id date rest offer_ids stocks)"

text \<open>\<open>create_stocks\<close> of market.py (lines 149-189).\<close>

definition market_create_stocks ::
  "string \<Rightarrow> string \<Rightarrow> remnant list \<Rightarrow> string list \<Rightarrow> error + market_stock list \<times> string list"
where
  "market_create_stocks warehouse_id date watch_remnants offer_ids =
     (case market_stocks_loop warehouse_id date watch_remnants offer_ids [] of
        Inl e \<Rightarrow> Inl e
      | Inr (stocks, offer_ids') \<Rightarrow>
          Inr (stocks @ map (\<lambda>i. \<lparr>sku = i, warehouseId = warehouse_id,
                 stock_items = [\<lparr>count = 0, item_type = ''FIT'', updatedAt = date\<rparr>]\<rparr>) offer_ids',
               offer_ids'))"

text \<open>
  The price dictionary of seller.py (lines 206-212); its key \<open>offer_id\<close> is the field
  \<open>price_offer_id\<close>.
\<close>

record seller_price =
  auto_action_enabled :: string
  currency_code :: string
  price_offer_id :: string
  old_price :: string
  price :: string

text \<open>
  \<open>create_prices\<close> of seller.py (lines 203-214). The list \<open>offer_ids\<close> is only read.
\<close>

fun seller_prices_loop ::
  "remnant list \<Rightarrow> string list \<Rightarrow> seller_price list \<Rightarrow> error + seller_price list"
where
  "seller_prices_loop [] offer_ids prices = Inr prices"
| "seller_prices_loop (watch # rest) offer_ids prices =
     (if py_str (kod watch) \<in> set offer_ids then
        (case price_conversion_val (tsena watch) of
           Inl e \<Rightarrow> Inl e
         | Inr p \<Rightarrow>
             seller_prices_loop rest offer_ids
               (prices @ [\<lparr>auto_action_enabled = ''UNKNOWN'', currency_code = ''RUB'',
                   price_offer_id = py_str (kod watch), old_price = ''0'', price = p\<rparr>]))
      else seller_prices_loop rest offer_ids prices)"

definition seller_create_prices :: "remnant list \<Rightarrow> string list \<Rightarrow> error + seller_price list" where
  "seller_create_prices watch_remnants offer_ids = seller_prices_loop watch_remnants offer_ids []"

text \<open>
  The price dictionary of market.py (lines 209-220): \<open>{"id", "price": {"value",
  "currencyId"}}\<close>, with the key \<open>id\<close> as \<open>price_id\<close> and \<open>value\<close> as \<open>price_value\<close>.
\<close>

record market_price =
  price_id :: string
  price_value :: int
  currencyId :: string

text \<open>
  \<open>create_prices\<close> of market.py (lines 206-222): the normalised price goes through
  \<open>int\<close>, which raises \<open>ValueError\<close> when no digit is left.
\<close>

fun market_prices_loop ::
  "remnant list \<Rightarrow> string list \<Rightarrow> market_price list \<Rightarrow> error + market_price list"
where
  "market_prices_loop [] offer_ids prices = Inr prices"
| "market_prices_loop (watch # rest) offer_ids prices =
     (if py_str (kod watch) \<in> set offer_ids then
        (case price_conversion_val (tsena watch) of
           Inl e \<Rightarrow> Inl e
         | Inr p \<Rightarrow>
             (case int_of_str p of
                None \<Rightarrow> Inl ValueError
              | Some v \<Rightarrow>
                  market_prices_loop rest offer_ids
                    (prices @ [\<lparr>price_id = py_str (kod watch), price_value = v,
                        currencyId = ''RUR''\<rparr>])))
      else market_prices_loop rest offer_ids prices)"

definition market_create_prices :: "remnant list \<Rightarrow> string list \<Rightarrow> error + market_price list" where
  "market_create_prices watch_remnants offer_ids = market_prices_loop watch_remnants offer_ids []"

section \<open>seller.py and market.py: dispatch in batches\<close>

text \<open>
  \<open>for some in list(divide(xs, n)): update(some, ...)\<close>: the endpoint \<open>update\<close> is called on
  the batches in order until one call raises. The result is the list of payloads sent (the
  failing one included) and the exception, if any.
\<close>

fun dispatch :: "('a list \<Rightarrow> error + 'r) \<Rightarrow> 'a list list \<Rightarrow> 'a list list \<times> error option" where
  "dispatch update [] = ([], None)"
| "dispatch update (b # bs) =
     (case update b of
        Inl e \<Rightarrow> ([b], Some e)
      | Inr ack \<Rightarrow> (case dispatch update bs of (sent, r) \<Rightarrow> (b # sent, r)))"

definition dispatch_batches ::
  "('a list \<Rightarrow> error + 'r) \<Rightarrow> 'a list \<Rightarrow> int \<Rightarrow> 'a list list \<times> error option"
where
  "dispatch_batches update xs n =
     (case divide xs n of
        Inl e \<Rightarrow> ([], Some e)
      | Inr batches \<Rightarrow> dispatch update batches)"

text \<open>seller.py, lines 291-292 (\<open>upload_stocks\<close>) and 314-315 (\<open>main\<close>): batches of 100.\<close>

definition seller_dispatch_stocks ::
  "(seller_stock list \<Rightarrow> error + 'r) \<Rightarrow> seller_stock list \<Rightarrow> seller_stock list list \<times> error option"
where
  "seller_dispatch_stocks update_stocks stocks = dispatch_batches update_stocks stocks 100"


text \<open>seller.py, lines 318-319 (\<open>main\<close>): batches of 900.\<close>

definition seller_main_prices_dispatch ::
  "(seller_price list \<Rightarrow> error + 'r) \<Rightarrow> seller_price list \<Rightarrow> seller_price list list \<times> error option"
where
  "seller_main_prices_dispatch update_price prices = dispatch_batches update_price prices 900"



text \<open>
  The body of the \<open>try\<close> in \<open>main\<close> of seller.py after the two downloads (lines 313-319).
  \<open>create_prices\<close> receives the list object that \<open>create_stocks\<close> has mutated. \<open>Inl\<close> is the
  exception the handlers of \<open>main\<close> then print.
\<close>

definition seller_main ::
  "(seller_stock list \<Rightarrow> error + 'r) \<Rightarrow> (seller_price list \<Rightarrow> error + 'r) \<Rightarrow> remnant list
     \<Rightarrow> string list \<Rightarrow> error + seller_stock list \<times> seller_price list"
where
  "seller_main update_stocks update_price watch_remnants offer_ids =
     (case seller_create_stocks watch_remnants offer_ids of
        Inl e \<Rightarrow> Inl e
      | Inr (stocks, offer_ids') \<Rightarrow>
          (case seller_dispatch_stocks update_stocks stocks of
             (sent, Some e) \<Rightarrow> Inl e
           | (sent, None) \<Rightarrow>
               (case seller_create_prices watch_remnants offer_ids' of
                  Inl e \<Rightarrow> Inl e
                | Inr prices \<Rightarrow>
                    (case seller_main_prices_dispatch update_price prices of
                       (sent', Some e) \<Rightarrow> Inl e
                     | (sent', None) \<Rightarrow> Inr (stocks, prices)))))"

section \<open>seller.py and market.py: fetching the catalog\<close>

text \<open>
  What \<open>get_product_list\<close> returns in seller.py: the value of \<open>result\<close>, read with
  \<open>get("items")\<close>, \<open>get("total")\<close> and \<open>get("last_id")\<close>; \<open>None\<close> is a missing key. A product
  is represented by its offer identifier, the only field the code reads.
\<close>

record seller_page =
  items :: "string list option"
  total :: "int option"
  last_id :: "string option"

text \<open>
  The \<open>while True\<close> loop of \<open>get_offer_ids\<close> in seller.py (lines 63-69). The server is a
  function of the number of the call and of the \<open>last_id\<close> sent; it answers with an exception,
  or with the value of \<open>result\<close> (\<open>None\<close> when the answer has no such key). The loop has no bound:
  the value \<open>None\<close> of the model is a run that never ends.
\<close>

partial_function (option) seller_fetch_loop ::
  "(nat \<Rightarrow> string option \<Rightarrow> error + seller_page option) \<Rightarrow> nat \<Rightarrow> string option \<Rightarrow> string list
     \<Rightarrow> (error + string list) option"
where
  "seller_fetch_loop get_product_list k last_id' product_list =
     (case get_product_list k last_id' of
        Inl e \<Rightarrow> Some (Inl e)
      | Inr None \<Rightarrow> Some (Inl AttributeError)
      | Inr (Some some_prod) \<Rightarrow>
          (case items some_prod of
             None \<Rightarrow> Some (Inl TypeError)
           | Some its \<Rightarrow>
               if total some_prod = Some (int (length (product_list @ its)))
               then Some (Inr (product_list @ its))
               else seller_fetch_loop get_product_list (Suc k) (last_id some_prod)
                      (product_list @ its)))"

text \<open>\<open>get_offer_ids\<close> of seller.py: the first request carries the empty \<open>last_id\<close>.\<close>

definition seller_get_offer_ids ::
  "(nat \<Rightarrow> string option \<Rightarrow> error + seller_page option) \<Rightarrow> (error + string list) option"
where
  "seller_get_offer_ids get_product_list = seller_fetch_loop get_product_list 0 (Some []) []"

text \<open>
  The value of \<open>result\<close> in market.py: \<open>offerMappingEntries\<close> and \<open>paging\<close>, each \<open>None\<close> when
  the key is missing; inside \<open>paging\<close>, \<open>nextPageToken\<close> is \<open>None\<close> when absent.
\<close>

record market_page =
  offerMappingEntries :: "string list option"
  paging :: "string option option"

text \<open>\<open>not page\<close> for a token: true for \<open>None\<close> and for the empty string.\<close>

definition py_not :: "string option \<Rightarrow> bool" where
  "py_not page = (page = None \<or> page = Some [])"

text \<open>The \<open>while True\<close> loop of \<open>get_offer_ids\<close> in market.py (lines 122-127).\<close>

partial_function (option) market_fetch_loop ::
  "(nat \<Rightarrow> string option \<Rightarrow> error + market_page option) \<Rightarrow> nat \<Rightarrow> string option \<Rightarrow> string list
     \<Rightarrow> (error + string list) option"
where
  "market_fetch_loop get_product_list k page product_list =
     (case get_product_list k page of
        Inl e \<Rightarrow> Some (Inl e)
      | Inr None \<Rightarrow> Some (Inl AttributeError)
      | Inr (Some some_prod) \<Rightarrow>
          (case offerMappingEntries some_prod of
             None \<Rightarrow> Some (Inl TypeError)
           | Some entries \<Rightarrow>
               (case paging some_prod of
                  None \<Rightarrow> Some (Inl AttributeError)
                | Some page' \<Rightarrow>
                    if py_not page' then Some (Inr (product_list @ entries))
                    else market_fetch_loop get_product_list (Suc k) page'
                           (product_list @ entries))))"

definition market_get_offer_ids ::
  "(nat \<Rightarrow> string option \<Rightarrow> error + market_page option) \<Rightarrow> (error + string list) option"
where
  "market_get_offer_ids get_product_list = market_fetch_loop get_product_list 0 (Some []) []"

section \<open>Notions used to state the properties\<close>

text \<open>The codes of the feed as the code compares them: \<open>str(watch.get(...))\<close> of each row.\<close>

definition codes :: "remnant list \<Rightarrow> string list" where
  "codes watch_remnants = map (\<lambda>watch. py_str (kod watch)) watch_remnants"

text \<open>A list without its repetitions, each element at the place of its first occurrence.\<close>

primrec first_occurrences :: "'a list \<Rightarrow> 'a list" where
  "first_occurrences [] = []"
| "first_occurrences (x # xs) = x # filter (\<lambda>y. y \<noteq> x) (first_occurrences xs)"

text \<open>The record of market.py that carries the same identifier and count as one of seller.py.\<close>

definition to_market :: "string \<Rightarrow> string \<Rightarrow> seller_stock \<Rightarrow> market_stock" where
  "to_market warehouse_id date s =
     \<lparr>sku = offer_id s, warehouseId = warehouse_id,
      stock_items = [\<lparr>count = stock s, item_type = ''FIT'', updatedAt = date\<rparr>]\<rparr>"

text \<open>
  A server of seller.py that has one product but reports a total of two: the first answer
  carries the product, every later answer is empty, and the \<open>last_id\<close> is always empty.
\<close>

definition short_server :: "nat \<Rightarrow> string option \<Rightarrow> error + seller_page option" where
  "short_server k t =
     Inr (Some \<lparr>items = Some (if k = 0 then [''A''] else []), total = Some 2, last_id = Some []\<rparr>)"

text \<open>
  Two servers for a run of two calls. The one of market.py announces a second page and ends
  it without a token; the one of seller.py reports a total of two and gives one item per call.
\<close>

definition market_two_pages :: "nat \<Rightarrow> string option \<Rightarrow> error + market_page option" where
  "market_two_pages k page =
     (if k = 0 then Inr (Some \<lparr>offerMappingEntries = Some [''A'', ''B''], paging = Some (Some ''p2'')\<rparr>)
      else Inr (Some \<lparr>offerMappingEntries = Some [''C''], paging = Some None\<rparr>))"

definition seller_two_pages :: "nat \<Rightarrow> string option \<Rightarrow> error + seller_page option" where
  "seller_two_pages k t =
     (if k = 0 then Inr (Some \<lparr>items = Some [''A''], total = Some 2, last_id = Some ''x''\<rparr>)
      else Inr (Some \<lparr>items = Some [''B''], total = Some 2, last_id = Some []\<rparr>))"

section \<open>Price normalisation\<close>

lemma py_split_nonempty: "py_split sep s \<noteq> []"
  by (induction s) (auto split: list.splits)

lemma hd_py_split: "hd (py_split sep s) = takeWhile (\<lambda>c. c \<noteq> sep) s"
  by (induction s) (auto simp: py_split_nonempty split: list.splits)

lemma price_conversion_alt:
  "price_conversion s = filter is_digit (takeWhile (\<lambda>c. c \<noteq> CHR ''.'') s)"
  by (simp add: price_conversion_def re_sub_non_digits_def hd_py_split)

lemma is_digit_not_dot: "is_digit c \<Longrightarrow> c \<noteq> CHR ''.''"
  by (auto simp: is_digit_def)

lemma price_conversion_digits:
  assumes "\<forall>c\<in>set s. is_digit c"
  shows "price_conversion s = s"
proof -
  have "takeWhile (\<lambda>c. c \<noteq> CHR ''.'') s = s"
    using assms by (auto intro!: takeWhile_eq_all_conv[THEN iffD2] dest: is_digit_not_dot)
  moreover have "filter is_digit s = s" using assms by simp
  ultimately show ?thesis by (simp only: price_conversion_alt)
qed

lemma price_conversion_example: "price_conversion example_price = ''19990''"
  by (simp add: price_conversion_def example_price_def re_sub_non_digits_def is_digit_def)

text \<open>
  Claim C8. \<open>price_conversion\<close> keeps what stands before the first decimal point and deletes
  every non-digit character of it; the spec's example price becomes \<open>19990\<close>; a string of
  digits only is returned unchanged, so the function is idempotent on its own output.
\<close>

theorem price_conversion_normalises:
  "price_conversion s = filter is_digit (takeWhile (\<lambda>c. c \<noteq> CHR ''.'') s)
   \<and> price_conversion example_price = ''19990''
   \<and> ((\<forall>c\<in>set s. is_digit c) \<longrightarrow> price_conversion s = s)
   \<and> price_conversion (price_conversion s) = price_conversion s"
proof -
  have "\<forall>c\<in>set (price_conversion s). is_digit c"
    by (simp add: price_conversion_alt)
  then have "price_conversion (price_conversion s) = price_conversion s"
    by (rule price_conversion_digits)
  then show ?thesis
    using price_conversion_alt price_conversion_example price_conversion_digits by blast
qed

theorem price_conversion_normalises_witness:
  "list_all is_digit ''19990'' \<and> price_conversion ''19990'' = ''19990''
   \<and> price_conversion ''1 250.75'' = ''1250''"
proof -
  have d: "\<forall>c\<in>set ''19990''. is_digit c" by (simp add: is_digit_def)
  have "price_conversion ''19990'' = ''19990''"
    using price_conversion_normalises [of "''19990''"] d by blast
  moreover have "price_conversion ''1 250.75'' = ''1250''"
    using price_conversion_normalises [of "''1 250.75''"] by (simp add: is_digit_def)
  ultimately show ?thesis using d by (simp add: list_all_iff)
qed

section \<open>The chunker\<close>

lemma py_slice_nonneg:
  assumes "0 \<le> i" "i \<le> j"
  shows "py_slice lst i j = take (nat j - nat i) (drop (nat i) lst)"
proof (cases "i < int (length lst)")
  case True
  have neg: "\<not> i < 0" "\<not> j < 0" using assms by auto
  have lo: "min i (int (length lst)) = i" using True by simp
  have "nat (min j (int (length lst)) - i) = min (nat j) (length lst) - nat i"
    using assms by (auto simp: min_def)
  moreover have "take (min (nat j) (length lst) - nat i) (drop (nat i) lst)
      = take (nat j - nat i) (drop (nat i) lst)"
    by (auto simp: min_def)
  ultimately show ?thesis
    by (simp only: py_slice_def Let_def neg if_False lo)
next
  case False
  then have "length lst \<le> nat i" using assms by auto
  then have "drop (nat i) lst = []" by simp
  moreover have "drop (nat (min i (int (length lst)))) lst = []"
    using False by (simp add: min_def)
  ultimately show ?thesis using assms by (simp add: py_slice_def Let_def)
qed

lemma py_slice_chunk:
  "py_slice lst (int k * int n) (int k * int n + int n) = take n (drop (k * n) lst)"
proof -
  have "nat (int k * int n + int n) - nat (int k * int n) = n"
    by (simp add: nat_add_distrib nat_mult_distrib)
  moreover have "nat (int k * int n) = k * n" by (simp add: nat_mult_distrib)
  ultimately show ?thesis by (simp add: py_slice_nonneg del: of_nat_mult of_nat_add)
qed

lemma py_range_pos:
  assumes "0 < n"
  shows "py_range 0 (int len) (int n) = Inr (map (\<lambda>k. int k * int n) [0..<(len + n - 1) div n])"
proof -
  have "(int len - 0 + int n - 1) div int n = int ((len + n - 1) div n)"
    using assms by (simp add: zdiv_int of_nat_diff)
  then show ?thesis using assms by (simp add: py_range_def)
qed

lemma divide_pos:
  assumes "0 < n"
  shows "divide lst (int n)
    = Inr (map (\<lambda>k. take n (drop (k * n) lst)) [0..<(length lst + n - 1) div n])"
  using assms
  by (simp add: divide_def py_range_pos py_slice_chunk o_def del: of_nat_mult)

lemma concat_chunks:
  "concat (map (\<lambda>k. take n (drop (k * n) lst)) [0..<m]) = take (m * n) lst"
proof (induction m)
  case 0
  then show ?case by simp
next
  case (Suc m)
  have "take (m * n) lst @ take n (drop (m * n) lst) = take (m * n + n) lst"
    by (simp add: take_add)
  with Suc show ?case by (simp add: add.commute)
qed

lemma chunk_count_covers:
  assumes "0 < n"
  shows "length lst \<le> ((length lst + n - 1) div n) * n"
proof -
  let ?l = "length lst + n - 1"
  have "?l = (?l div n) * n + ?l mod n" by simp
  moreover have "?l mod n \<le> n - 1" using assms by (simp add: less_Suc_eq_le [symmetric])
  ultimately have "?l \<le> (?l div n) * n + (n - 1)" by linarith
  then show ?thesis using assms by simp
qed

lemma chunk_index_inside:
  assumes "0 < n" "k < (len + n - 1) div n"
  shows "k * n < (len::nat)"
proof -
  from assms have "Suc k \<le> (len + n - 1) div n" by simp
  then have "Suc k * n \<le> len + n - 1"
    using assms(1) by (simp add: less_eq_div_iff_mult_less_eq)
  then show ?thesis using assms(1) by simp
qed

lemma divide_nat_props:
  fixes lst :: "'a list"
  assumes "0 < m"
  defines "cs \<equiv> map (\<lambda>k. take m (drop (k * m) lst)) [0..<(length lst + m - 1) div m]"
  shows "concat cs = lst"
    and "\<forall>c\<in>set (butlast cs). length c = m"
    and "\<forall>c\<in>set cs. c \<noteq> [] \<and> length c \<le> m"
proof -
  let ?cnt = "(length lst + m - 1) div m"
  show "concat cs = lst"
    unfolding cs_def using chunk_count_covers [OF assms(1), of lst]
    by (simp add: concat_chunks)
  have inside: "\<And>k. k < ?cnt \<Longrightarrow> k * m < length lst"
    using chunk_index_inside [OF assms(1)] by blast
  show "\<forall>c\<in>set cs. c \<noteq> [] \<and> length c \<le> m"
  proof
    fix c assume "c \<in> set cs"
    then obtain k where k: "k < ?cnt" "c = take m (drop (k * m) lst)"
      unfolding cs_def by auto
    from inside [OF k(1)] have "k * m < length lst" .
    then show "c \<noteq> [] \<and> length c \<le> m" using k(2) assms(1) by simp
  qed
  show "\<forall>c\<in>set (butlast cs). length c = m"
  proof
    fix c assume "c \<in> set (butlast cs)"
    then obtain k where k: "k < length (butlast cs)" "c = butlast cs ! k"
      by (auto simp: in_set_conv_nth)
    from k(1) have lt: "Suc k < ?cnt" unfolding cs_def by simp
    then have "c = take m (drop (k * m) lst)"
      using k unfolding cs_def by (simp add: nth_butlast)
    moreover from lt have "Suc k * m < length lst" by (rule inside)
    ultimately show "length c = m" by simp
  qed
qed

lemma divide_nat_partitions:
  fixes lst :: "'a list"
  assumes "0 < m"
  shows "\<exists>cs. divide lst (int m) = Inr cs
           \<and> concat cs = lst
           \<and> (\<forall>c\<in>set (butlast cs). length c = m)
           \<and> (\<forall>c\<in>set cs. c \<noteq> [] \<and> length c \<le> m)
           \<and> (\<forall>k<length cs. cs ! k = take m (drop (k * m) lst))"
proof (intro exI conjI)
  let ?cs = "map (\<lambda>k. take m (drop (k * m) lst)) [0..<(length lst + m - 1) div m]"
  show "divide lst (int m) = Inr ?cs" by (rule divide_pos [OF assms])
  show "concat ?cs = lst" by (rule divide_nat_props(1) [OF assms])
  show "\<forall>c\<in>set (butlast ?cs). length c = m" by (rule divide_nat_props(2) [OF assms])
  show "\<forall>c\<in>set ?cs. c \<noteq> [] \<and> length c \<le> m" by (rule divide_nat_props(3) [OF assms])
  show "\<forall>k<length ?cs. ?cs ! k = take m (drop (k * m) lst)" by simp
qed

text \<open>
  Claim C7. For a chunk size \<open>n \<ge> 1\<close>, \<open>divide\<close> returns chunks whose concatenation is
  the list; chunk \<open>k\<close> is the slice of \<open>n\<close> elements starting at \<open>k * n\<close>, so the chunks are
  contiguous and do not overlap; every chunk but the last has exactly \<open>n\<close> elements, none is
  empty or longer than \<open>n\<close>; the empty list gives no chunk.
\<close>

theorem divide_partitions:
  assumes "1 \<le> n"
  shows "\<exists>cs. divide lst n = Inr cs
           \<and> concat cs = lst
           \<and> (\<forall>c\<in>set (butlast cs). int (length c) = n)
           \<and> (\<forall>c\<in>set cs. c \<noteq> [] \<and> int (length c) \<le> n)
           \<and> (\<forall>k<length cs. cs ! k = take (nat n) (drop (k * nat n) lst))
           \<and> divide ([] :: 'a list) n = Inr []"
proof -
  define m where "m = nat n"
  have m: "0 < m" and n: "n = int m" using assms by (simp_all add: m_def)
  have e: "divide ([] :: 'a list) (int m) = Inr []"
    unfolding divide_pos [OF m] using m by simp
  obtain cs where cs: "divide lst (int m) = Inr cs" "concat cs = lst"
    "\<forall>c\<in>set (butlast cs). length c = m" "\<forall>c\<in>set cs. c \<noteq> [] \<and> length c \<le> m"
    "\<forall>k<length cs. cs ! k = take m (drop (k * m) lst)"
    using divide_nat_partitions [OF m, of lst] by blast
  show ?thesis
    unfolding n nat_int of_nat_eq_iff of_nat_le_iff
    using cs e by blast
qed

theorem divide_partitions_witness:
  "(1::int) \<le> 2 \<and> divide [1, 2, 3, 4, 5 :: nat] 2 = Inr [[1, 2], [3, 4], [5]]"
proof -
  have h: "(1::int) \<le> 2" by simp
  obtain cs where cs: "divide [1, 2, 3, 4, 5 :: nat] 2 = Inr cs"
    "concat cs = [1, 2, 3, 4, 5]" "\<forall>c\<in>set (butlast cs). int (length c) = 2"
    using divide_partitions [OF h, of "[1, 2, 3, 4, 5 :: nat]"] by blast
  have "divide [1, 2, 3, 4, 5 :: nat] 2 = Inr [[1, 2], [3, 4], [5]]"
    by code_simp
  then show ?thesis using h by simp
qed

lemma py_range_neg:
  assumes "n < 0"
  shows "py_range 0 (int len) n = Inr []"
proof -
  have "(0 - int len - n - 1) div (- n) \<le> (- n - 1) div (- n)"
    using assms by (intro zdiv_mono1) simp_all
  moreover have "(- n - 1) div (- n) = 0"
    using assms by (intro div_pos_pos_trivial) simp_all
  ultimately have "(0 - int len - n - 1) div (- n) \<le> 0" by simp
  then show ?thesis using assms by (simp add: py_range_def)
qed

text \<open>
  Claim C9, as the code has it. A chunk size of zero raises \<open>ValueError\<close> (from
  \<open>range\<close>, when the generator is first advanced); a negative chunk size raises nothing and
  yields no chunk at all, whatever the list.
\<close>

theorem divide_nonpositive_size:
  "divide lst 0 = Inl ValueError \<and> (n < 0 \<longrightarrow> divide lst n = Inr [])"
  by (simp add: divide_def py_range_neg) (simp add: py_range_def)

theorem divide_nonpositive_size_witness:
  "(- 2 :: int) < 0 \<and> divide [1, 2, 3 :: nat] (- 2) = Inr [] \<and> divide [1, 2, 3 :: nat] 0 = Inl ValueError"
  using divide_nonpositive_size [of "[1, 2, 3 :: nat]" "- 2"] by simp

text \<open>
  The claim as stated fails for a negative size: a list of three elements and the size
  \<open>-1\<close> give the empty sequence of chunks, not an error.
\<close>

theorem divide_negative_size_counterexample:
  "divide [1, 2, 3 :: nat] (- 1) = Inr []"
  by (simp add: divide_def py_range_def)

section \<open>Integer literals\<close>

lemma utf8_none_ascii:
  "b < 128 \<Longrightarrow> utf8_2 b c1 = None" "b < 128 \<Longrightarrow> utf8_3 b c1 c2 = None"
  "b < 128 \<Longrightarrow> utf8_4 b c1 c2 c3 = None"
  by (simp_all add: utf8_2_def utf8_3_def utf8_4_def Let_def)

lemma utf8_decode_ascii: "\<forall>b\<in>set bs. b < 128 \<Longrightarrow> utf8_decode bs = bs"
  by (induction bs rule: utf8_decode.induct) (simp_all add: utf8_none_ascii)

lemma those_to_ascii: "\<forall>c\<in>set cs. c < 127 \<Longrightarrow> those (map to_ascii cs) = Some cs"
  by (induction cs) (simp_all add: to_ascii_def)

lemma int_of_str_ascii:
  assumes "\<forall>c\<in>set s. (of_char c :: nat) < 127"
  shows "int_of_str s =
     (case py_strip (map of_char s) of
        [] \<Rightarrow> None
      | c # cs \<Rightarrow>
          if c = 45 then map_option (\<lambda>n. - int n) (int_digits False 0 0 cs)
          else if c = 43 then map_option int (int_digits False 0 0 cs)
          else map_option int (int_digits False 0 0 (c # cs)))"
proof -
  have "\<forall>b\<in>set (map of_char s). (b::nat) < 128" using assms by fastforce
  then have "utf8_decode (map of_char s) = map of_char s" by (rule utf8_decode_ascii)
  moreover have "those (map to_ascii (map of_char s)) = Some (map of_char s)"
    using assms by (intro those_to_ascii) simp
  ultimately show ?thesis by (simp add: int_of_str_def)
qed

lemma py_strip_pad:
  assumes "core \<noteq> []" "\<not> ascii_blank (hd core)" "\<not> ascii_blank (last core)"
    and "\<forall>c\<in>set p1. ascii_blank c" "\<forall>c\<in>set p2. ascii_blank c"
  shows "py_strip (p1 @ core @ p2) = core"
proof -
  obtain h t where ht: "core = h # t" using assms(1) by (cases core) auto
  have "\<And>x. x \<in> set p1 \<Longrightarrow> ascii_blank x" using assms(4) by simp
  then have "dropWhile ascii_blank (p1 @ core @ p2) = dropWhile ascii_blank (core @ p2)"
    by (rule dropWhile_append2)
  also have "\<dots> = core @ p2" using assms(2) ht by simp
  finally have a: "dropWhile ascii_blank (p1 @ core @ p2) = core @ p2" .
  obtain l i where li: "rev core = l # i" using assms(1) by (cases "rev core") auto
  then have "l = last core" using assms(1) by (metis last_rev list.sel(1) rev_rev_ident hd_rev)
  then have nl: "\<not> ascii_blank l" using assms(3) by simp
  have "\<And>x. x \<in> set (rev p2) \<Longrightarrow> ascii_blank x" using assms(5) by simp
  then have "dropWhile ascii_blank (rev p2 @ rev core) = dropWhile ascii_blank (rev core)"
    by (rule dropWhile_append2)
  then have "dropWhile ascii_blank (rev (core @ p2)) = dropWhile ascii_blank (rev core)"
    by simp
  also have "\<dots> = rev core" using li nl by simp
  finally show ?thesis using a by (simp add: py_strip_def)
qed

lemma of_char_str_nat: "c \<in> set (str_nat n) \<Longrightarrow> 48 \<le> (of_char c :: nat) \<and> (of_char c :: nat) \<le> 57"
proof (induction n arbitrary: c rule: str_nat.induct)
  case (1 n)
  show ?case
  proof (cases "n < 10")
    case True
    then show ?thesis using "1.prems" by (simp add: str_nat.simps [of n])
  next
    case False
    have "n mod 10 < 10" by simp
    then have "48 \<le> (of_char (char_of (48 + n mod 10)) :: nat)
        \<and> (of_char (char_of (48 + n mod 10)) :: nat) \<le> 57"
      by simp
    then show ?thesis using False "1.prems" "1.IH"
      by (auto simp: str_nat.simps [of n])
  qed
qed

lemma str_nat_nonempty: "str_nat n \<noteq> []"
  by (simp add: str_nat.simps [of n])

lemma length_str_nat: "0 < k \<Longrightarrow> n < 10 ^ k \<Longrightarrow> length (str_nat n) \<le> k"
proof (induction n arbitrary: k rule: str_nat.induct)
  case (1 n)
  show ?case
  proof (cases "n < 10")
    case True
    then show ?thesis using "1.prems" by (simp add: str_nat.simps [of n])
  next
    case False
    then obtain k' where k': "k = Suc k'" "0 < k'"
      using "1.prems" by (cases k; cases "k - 1") auto
    have "n div 10 < 10 ^ k'" using "1.prems"(2) k'(1) by (simp add: less_mult_imp_div_less mult.commute)
    from "1.IH" [OF False k'(2) this] show ?thesis
      using False k'(1) by (simp add: str_nat.simps [of n])
  qed
qed

lemma int_digits_all_digits:
  "\<forall>c\<in>set ds. 48 \<le> c \<and> c \<le> 57 \<Longrightarrow>
     int_digits b nd acc ds =
       (if ds = [] then (if b \<and> nd \<le> max_str_digits then Some acc else None)
        else if nd + length ds \<le> max_str_digits
          then Some (foldl (\<lambda>a c. 10 * a + (c - 48)) acc ds)
        else None)"
  by (induction ds arbitrary: b nd acc) auto

lemma foldl_str_nat:
  "foldl (\<lambda>a c. 10 * a + (c - 48)) acc (map of_char (str_nat n))
     = acc * 10 ^ length (str_nat n) + n"
proof (induction n arbitrary: acc rule: str_nat.induct)
  case (1 n)
  show ?case
  proof (cases "n < 10")
    case True
    then show ?thesis by (simp add: str_nat.simps [of n])
  next
    case False
    have "n mod 10 < 10" by simp
    then have "(of_char (char_of (48 + n mod 10)) :: nat) - 48 = n mod 10" by simp
    then show ?thesis using False "1.IH" [of acc]
      by (simp add: str_nat.simps [of n] algebra_simps)
  qed
qed

lemma int_digits_str_nat:
  assumes "length (str_nat n) \<le> max_str_digits"
  shows "int_digits False 0 0 (map of_char (str_nat n)) = Some n"
proof -
  have "\<forall>c\<in>set (map of_char (str_nat n)). 48 \<le> c \<and> c \<le> (57::nat)"
    using of_char_str_nat [of _ n] by auto
  from int_digits_all_digits [OF this, of False 0 0] assms show ?thesis
    by (simp add: str_nat_nonempty foldl_str_nat)
qed

lemma ascii_blank_small: "ascii_blank c \<Longrightarrow> c < 127 \<and> \<not> (48 \<le> c \<and> c \<le> 57) \<and> c \<noteq> 45"
  by (auto simp: ascii_blank_def)

lemma digit_not_blank: "48 \<le> c \<and> c \<le> 57 \<Longrightarrow> \<not> ascii_blank c"
  by (auto simp: ascii_blank_def)

lemma int_of_str_padded_nat:
  assumes p: "\<forall>c\<in>set p1. ascii_blank (of_char c)" "\<forall>c\<in>set p2. ascii_blank (of_char c)"
    and len: "length (str_nat n) \<le> max_str_digits"
  shows "int_of_str (p1 @ str_nat n @ p2) = Some (int n)"
    and "int_of_str (p1 @ CHR ''-'' # str_nat n @ p2) = Some (- int n)"
proof -
  let ?d = "map of_char (str_nat n) :: nat list"
  have dig: "\<forall>c\<in>set ?d. 48 \<le> c \<and> c \<le> 57" using of_char_str_nat [of _ n] by auto
  have ne: "?d \<noteq> []" using str_nat_nonempty [of n] by simp
  then obtain c cs where cs: "?d = c # cs" by (cases ?d) auto
  have "hd ?d \<in> set ?d" using ne by (rule hd_in_set)
  then have h: "48 \<le> hd ?d \<and> hd ?d \<le> 57" using dig by blast
  have "last ?d \<in> set ?d" using ne by (rule last_in_set)
  then have l: "48 \<le> last ?d \<and> last ?d \<le> 57" using dig by blast
  have nh: "\<not> ascii_blank (hd ?d)" using h by (rule digit_not_blank)
  have nl: "\<not> ascii_blank (last ?d)" using l by (rule digit_not_blank)
  have b1: "\<forall>c\<in>set (map of_char p1 :: nat list). ascii_blank c" using p(1) by simp
  have b2: "\<forall>c\<in>set (map of_char p2 :: nat list). ascii_blank c" using p(2) by simp
  have val: "int_digits False 0 0 ?d = Some n" by (rule int_digits_str_nat [OF len])
  have dsmall: "(of_char x :: nat) < 127" if "x \<in> set (str_nat n)" for x
    using of_char_str_nat [OF that] by simp
  have psmall: "(of_char x :: nat) < 127" if "x \<in> set p1 \<or> x \<in> set p2" for x
    using that p ascii_blank_small by blast
  have asc1: "\<forall>x\<in>set (p1 @ str_nat n @ p2). (of_char x :: nat) < 127"
    using dsmall psmall by auto
  have st1: "py_strip (map of_char p1 @ ?d @ map of_char p2) = ?d"
    by (rule py_strip_pad [OF ne nh nl b1 b2])
  have c: "c \<noteq> 45" "c \<noteq> 43" using h cs by auto
  have "int_of_str (p1 @ str_nat n @ p2) =
      (case py_strip (map of_char p1 @ ?d @ map of_char p2) of
        [] \<Rightarrow> None
      | c # cs \<Rightarrow>
          if c = 45 then map_option (\<lambda>n. - int n) (int_digits False 0 0 cs)
          else if c = 43 then map_option int (int_digits False 0 0 cs)
          else map_option int (int_digits False 0 0 (c # cs)))"
    using int_of_str_ascii [OF asc1] by simp
  also have "\<dots> = map_option int (int_digits False 0 0 ?d)"
    unfolding st1 using c by (simp add: cs del: int_digits.simps)
  finally show "int_of_str (p1 @ str_nat n @ p2) = Some (int n)"
    using val by simp
  have asc2: "\<forall>x\<in>set (p1 @ CHR ''-'' # str_nat n @ p2). (of_char x :: nat) < 127"
    using dsmall psmall by auto
  have ne2: "45 # ?d \<noteq> []" by simp
  have nh2: "\<not> ascii_blank (hd (45 # ?d))" by (simp add: ascii_blank_def)
  have "last (45 # ?d) = last ?d" using ne by simp
  then have nl2: "\<not> ascii_blank (last (45 # ?d))" using nl by simp
  have st2: "py_strip (map of_char p1 @ (45 # ?d) @ map of_char p2) = 45 # ?d"
    by (rule py_strip_pad [OF ne2 nh2 nl2 b1 b2])
  have "int_of_str (p1 @ CHR ''-'' # str_nat n @ p2) =
      (case py_strip (map of_char p1 @ (45 # ?d) @ map of_char p2) of
        [] \<Rightarrow> None
      | c # cs \<Rightarrow>
          if c = 45 then map_option (\<lambda>n. - int n) (int_digits False 0 0 cs)
          else if c = 43 then map_option int (int_digits False 0 0 cs)
          else map_option int (int_digits False 0 0 (c # cs)))"
    using int_of_str_ascii [OF asc2] by simp
  also have "\<dots> = map_option (\<lambda>n. - int n) (int_digits False 0 0 ?d)"
    unfolding st2 by simp
  finally show "int_of_str (p1 @ CHR ''-'' # str_nat n @ p2) = Some (- int n)"
    using val by simp
qed

lemma max_str_digits_pos: "0 < max_str_digits"
  by (simp add: max_str_digits_def)

lemma int_of_str_padded:
  assumes "\<forall>c\<in>set p1. ascii_blank (of_char c)" "\<forall>c\<in>set p2. ascii_blank (of_char c)"
    and "\<bar>i\<bar> < 10 ^ max_str_digits"
  shows "int_of_str (p1 @ str_int i @ p2) = Some i"
proof -
  have "int (nat \<bar>i\<bar>) < int (10 ^ max_str_digits)"
    using assms(3) by simp
  then have "nat \<bar>i\<bar> < 10 ^ max_str_digits"
    by (simp only: of_nat_less_iff)
  then have len: "length (str_nat (nat \<bar>i\<bar>)) \<le> max_str_digits"
    by (rule length_str_nat [OF max_str_digits_pos])
  show ?thesis
  proof (cases "i < 0")
    case True
    then have e: "nat \<bar>i\<bar> = nat (- i)" by simp
    have "int_of_str (p1 @ CHR ''-'' # str_nat (nat (- i)) @ p2) = Some (- int (nat (- i)))"
      using len unfolding e by (rule int_of_str_padded_nat(2) [OF assms(1,2)])
    then show ?thesis using True by (simp add: str_int_def)
  next
    case False
    then have e: "nat \<bar>i\<bar> = nat i" by simp
    have "int_of_str (p1 @ str_nat (nat i) @ p2) = Some (int (nat i))"
      using len unfolding e by (rule int_of_str_padded_nat(1) [OF assms(1,2)])
    then show ?thesis using False by (simp add: str_int_def)
  qed
qed

lemma int_of_str_str_int: "\<bar>i\<bar> < 10 ^ max_str_digits \<Longrightarrow> int_of_str (str_int i) = Some i"
  using int_of_str_padded [of "[]" "[]" i] by simp

lemmas int_model_defs =
  int_of_str_def utf8_2_def utf8_3_def utf8_4_def is_cont_def to_ascii_def unicode_blank_def
  unicode_decimal_def decimal_zeros_def py_strip_def ascii_blank_def max_str_digits_def Let_def

lemma int_of_str_nbsp: "int_of_str (''5'' @ [CHR 0xC2, CHR 0xA0]) = Some 5"
  by (simp add: int_model_defs)




lemma int_of_str_na: "int_of_str ''n/a'' = None"
  by (simp add: int_model_defs)

lemma int_of_str_empty: "int_of_str [] = None"
  by (simp add: int_model_defs)

lemma int_of_str_1: "int_of_str ''1'' = Some 1"
  by (simp add: int_model_defs)

lemma int_of_str_2: "int_of_str ''2'' = Some 2"
  by (simp add: int_model_defs)




section \<open>The stock loop and the completeness of reconciliation\<close>

lemma seller_stocks_loop_acc:
  "seller_stocks_loop rs ids acc =
     (case seller_stocks_loop rs ids [] of
        Inl e \<Rightarrow> Inl e
      | Inr (st, ids') \<Rightarrow> Inr (acc @ st, ids'))"
proof (induction rs arbitrary: ids acc)
  case Nil
  then show ?case by simp
next
  case (Cons r rs)
  show ?case
  proof (cases "py_str (kod r) \<in> set ids")
    case False
    then show ?thesis using Cons.IH [of ids acc] by simp
  next
    case True
    show ?thesis
    proof (cases "resolve_stock (kolichestvo r)")
      case (Inl e)
      then show ?thesis using True by simp
    next
      case (Inr k)
      let ?rec = "\<lparr>offer_id = py_str (kod r), stock = k\<rparr>"
      let ?ids = "remove1 (py_str (kod r)) ids"
      have "seller_stocks_loop rs ?ids (acc @ [?rec]) =
          (case seller_stocks_loop rs ?ids [] of Inl e \<Rightarrow> Inl e
           | Inr (st, ids') \<Rightarrow> Inr ((acc @ [?rec]) @ st, ids'))"
        by (rule Cons.IH)
      moreover have "seller_stocks_loop rs ?ids [?rec] =
          (case seller_stocks_loop rs ?ids [] of Inl e \<Rightarrow> Inl e
           | Inr (st, ids') \<Rightarrow> Inr ([?rec] @ st, ids'))"
        by (rule Cons.IH)
      ultimately show ?thesis using True Inr
        by (simp split: sum.splits prod.splits)
    qed
  qed
qed

lemma seller_stocks_loop_append:
  "seller_stocks_loop (pre @ post) ids acc =
     (case seller_stocks_loop pre ids acc of
        Inl e \<Rightarrow> Inl e
      | Inr (st, ids') \<Rightarrow> seller_stocks_loop post ids' st)"
  by (induction pre arbitrary: ids acc) (auto split: sum.splits)

lemma market_stocks_loop_seller:
  "market_stocks_loop w d rs ids (map (to_market w d) acc) =
     (case seller_stocks_loop rs ids acc of
        Inl e \<Rightarrow> Inl e
      | Inr (st, ids') \<Rightarrow> Inr (map (to_market w d) st, ids'))"
proof (induction rs arbitrary: ids acc)
  case Nil
  then show ?case by simp
next
  case (Cons r rs)
  show ?case
  proof (cases "py_str (kod r) \<in> set ids")
    case False
    then show ?thesis using Cons.IH [of ids acc] by simp
  next
    case True
    show ?thesis
    proof (cases "resolve_stock (kolichestvo r)")
      case (Inl e)
      then show ?thesis using True by simp
    next
      case (Inr k)
      let ?rec = "\<lparr>offer_id = py_str (kod r), stock = k\<rparr>"
      have "map (to_market w d) acc @ [to_market w d ?rec] = map (to_market w d) (acc @ [?rec])"
        by simp
      then show ?thesis using True Inr Cons.IH [of "remove1 (py_str (kod r)) ids" "acc @ [?rec]"]
        by (simp add: to_market_def)
    qed
  qed
qed

lemma market_create_stocks_seller:
  "market_create_stocks w d rs ids =
     (case seller_create_stocks rs ids of
        Inl e \<Rightarrow> Inl e
      | Inr (st, ids') \<Rightarrow> Inr (map (to_market w d) st, ids'))"
  using market_stocks_loop_seller [of w d rs ids "[]"]
  by (simp add: market_create_stocks_def seller_create_stocks_def to_market_def o_def
      split: sum.splits prod.splits)

lemma set_first_occurrences [simp]: "set (first_occurrences xs) = set xs"
  by (induction xs) auto

lemma distinct_first_occurrences [simp]: "distinct (first_occurrences xs)"
  by (induction xs) auto

lemma seller_stocks_loop_distinct:
  assumes "distinct ids" "seller_stocks_loop rs ids [] = Inr (st, ids')"
  shows "map offer_id st = filter (\<lambda>c. c \<in> set ids) (first_occurrences (codes rs))
       \<and> ids' = filter (\<lambda>i. i \<notin> set (codes rs)) ids"
  using assms
proof (induction rs arbitrary: ids st ids')
  case Nil
  then show ?case by (simp add: codes_def)
next
  case (Cons r rs)
  let ?c = "py_str (kod r)"
  show ?case
  proof (cases "?c \<in> set ids")
    case False
    with Cons.prems have "seller_stocks_loop rs ids [] = Inr (st, ids')" by simp
    from Cons.IH [OF Cons.prems(1) this]
    have ih: "map offer_id st = filter (\<lambda>c. c \<in> set ids) (first_occurrences (codes rs))"
      "ids' = filter (\<lambda>i. i \<notin> set (codes rs)) ids" by simp_all
    have "filter (\<lambda>c. c \<in> set ids) (filter (\<lambda>y. y \<noteq> ?c) (first_occurrences (codes rs)))
        = filter (\<lambda>c. c \<in> set ids) (first_occurrences (codes rs))"
      using False by (auto intro: filter_cong)
    moreover have "filter (\<lambda>i. i \<noteq> ?c \<and> i \<notin> set (codes rs)) ids
        = filter (\<lambda>i. i \<notin> set (codes rs)) ids"
      using False by (auto intro: filter_cong)
    ultimately show ?thesis using ih False by (simp add: codes_def)
  next
    case True
    then obtain k where k: "resolve_stock (kolichestvo r) = Inr k"
      using Cons.prems(2) by (cases "resolve_stock (kolichestvo r)") auto
    let ?rec = "\<lparr>offer_id = ?c, stock = k\<rparr>"
    let ?ids = "remove1 ?c ids"
    from Cons.prems(2) True k have "seller_stocks_loop rs ?ids [?rec] = Inr (st, ids')" by simp
    then obtain st0 where st0: "seller_stocks_loop rs ?ids [] = Inr (st0, ids')" "st = ?rec # st0"
      by (subst (asm) seller_stocks_loop_acc) (auto split: sum.splits prod.splits)
    have d: "distinct ?ids" using Cons.prems(1) by simp
    from Cons.IH [OF d st0(1)]
    have ih: "map offer_id st0 = filter (\<lambda>c. c \<in> set ?ids) (first_occurrences (codes rs))"
      "ids' = filter (\<lambda>i. i \<notin> set (codes rs)) ?ids" by simp_all
    have s: "set ?ids = set ids - {?c}" using Cons.prems(1) by simp
    have r1: "?ids = filter (\<lambda>i. i \<noteq> ?c) ids"
      using Cons.prems(1) by (simp add: distinct_remove1_removeAll removeAll_filter_not_eq) (metis)
    have "filter (\<lambda>c. c \<in> set ids) (filter (\<lambda>y. y \<noteq> ?c) (first_occurrences (codes rs)))
        = filter (\<lambda>c. c \<in> set ?ids) (first_occurrences (codes rs))"
      unfolding s by (auto intro: filter_cong)
    moreover have "filter (\<lambda>i. i \<notin> set (codes rs)) ?ids
        = filter (\<lambda>i. i \<noteq> ?c \<and> i \<notin> set (codes rs)) ids"
      unfolding r1 by (auto intro: filter_cong)
    ultimately show ?thesis using ih st0(2) True by (simp add: codes_def)
  qed
qed

lemma seller_stocks_loop_counts:
  assumes "distinct ids" "seller_stocks_loop rs ids [] = Inr (st, ids')"
  shows "\<forall>s\<in>set st. \<exists>r. find (\<lambda>r. py_str (kod r) = offer_id s) rs = Some r
            \<and> resolve_stock (kolichestvo r) = Inr (stock s)"
  using assms
proof (induction rs arbitrary: ids st ids')
  case Nil
  then show ?case by simp
next
  case (Cons r rs)
  let ?c = "py_str (kod r)"
  show ?case
  proof (cases "?c \<in> set ids")
    case False
    with Cons.prems have l: "seller_stocks_loop rs ids [] = Inr (st, ids')" by simp
    have "offer_id s \<noteq> ?c" if "s \<in> set st" for s
    proof -
      from that have "offer_id s \<in> set (map offer_id st)" by simp
      then have "offer_id s \<in> set ids"
        using seller_stocks_loop_distinct [OF Cons.prems(1) l] by simp
      with False show ?thesis by auto
    qed
    then show ?thesis using Cons.IH [OF Cons.prems(1) l] by fastforce
  next
    case True
    then obtain k where k: "resolve_stock (kolichestvo r) = Inr k"
      using Cons.prems(2) by (cases "resolve_stock (kolichestvo r)") auto
    let ?rec = "\<lparr>offer_id = ?c, stock = k\<rparr>"
    let ?ids = "remove1 ?c ids"
    from Cons.prems(2) True k have "seller_stocks_loop rs ?ids [?rec] = Inr (st, ids')" by simp
    then obtain st0 where st0: "seller_stocks_loop rs ?ids [] = Inr (st0, ids')" "st = ?rec # st0"
      by (subst (asm) seller_stocks_loop_acc) (auto split: sum.splits prod.splits)
    have d: "distinct ?ids" using Cons.prems(1) by simp
    have "offer_id s \<noteq> ?c" if "s \<in> set st0" for s
    proof -
      from that have "offer_id s \<in> set (map offer_id st0)" by simp
      then have "offer_id s \<in> set ?ids"
        using seller_stocks_loop_distinct [OF d st0(1)] by simp
      then show ?thesis using Cons.prems(1) by auto
    qed
    then have "\<forall>s\<in>set st0. \<exists>r'. find (\<lambda>r'. py_str (kod r') = offer_id s) (r # rs) = Some r'
            \<and> resolve_stock (kolichestvo r') = Inr (stock s)"
      using Cons.IH [OF d st0(1)] by fastforce
    then show ?thesis using st0(2) k by simp
  qed
qed

lemma seller_create_stocks_distinct:
  assumes "distinct ids" "seller_create_stocks rs ids = Inr (stocks, left)"
  shows "map offer_id stocks = filter (\<lambda>c. c \<in> set ids) (first_occurrences (codes rs))
           @ filter (\<lambda>i. i \<notin> set (codes rs)) ids"
    and "left = filter (\<lambda>i. i \<notin> set (codes rs)) ids"
    and "\<forall>s\<in>set stocks.
           (case find (\<lambda>r. py_str (kod r) = offer_id s) rs of
              None \<Rightarrow> stock s = 0
            | Some r \<Rightarrow> resolve_stock (kolichestvo r) = Inr (stock s))"
proof -
  from assms(2) obtain st where st: "seller_stocks_loop rs ids [] = Inr (st, left)"
    "stocks = st @ map (\<lambda>i. \<lparr>offer_id = i, stock = 0\<rparr>) left"
    by (auto simp: seller_create_stocks_def split: sum.splits prod.splits)
  note l = seller_stocks_loop_distinct [OF assms(1) st(1)]
  show "left = filter (\<lambda>i. i \<notin> set (codes rs)) ids" using l by simp
  show "map offer_id stocks = filter (\<lambda>c. c \<in> set ids) (first_occurrences (codes rs))
           @ filter (\<lambda>i. i \<notin> set (codes rs)) ids"
    using l st(2) by (simp add: o_def)
  have a: "case find (\<lambda>r. py_str (kod r) = offer_id s) rs of
              None \<Rightarrow> stock s = 0
            | Some r \<Rightarrow> resolve_stock (kolichestvo r) = Inr (stock s)" if "s \<in> set st" for s
    using seller_stocks_loop_counts [OF assms(1) st(1)] that by fastforce
  have b: "find (\<lambda>r. py_str (kod r) = i) rs = None" if "i \<in> set left" for i
  proof -
    from that l have "i \<notin> set (codes rs)" by simp
    then show ?thesis by (auto simp: find_None_iff codes_def)
  qed
  show "\<forall>s\<in>set stocks.
           (case find (\<lambda>r. py_str (kod r) = offer_id s) rs of
              None \<Rightarrow> stock s = 0
            | Some r \<Rightarrow> resolve_stock (kolichestvo r) = Inr (stock s))"
    unfolding st(2) using a by (auto simp: b)
qed

lemma seller_create_stocks_ids:
  assumes "distinct ids" "seller_create_stocks rs ids = Inr (stocks, left)"
  shows "set (map offer_id stocks) = set ids" and "distinct (map offer_id stocks)"
proof -
  note m = seller_create_stocks_distinct(1) [OF assms]
  show "set (map offer_id stocks) = set ids"
    unfolding m by auto
  show "distinct (map offer_id stocks)"
    unfolding m using assms(1) by auto
qed

lemma seller_stocks_loop_returns:
  assumes "distinct ids"
    and "\<forall>c\<in>set ids. \<forall>r. find (\<lambda>r. py_str (kod r) = c) rs = Some r \<longrightarrow>
           (\<exists>k. resolve_stock (kolichestvo r) = Inr k)"
  shows "\<exists>st ids'. seller_stocks_loop rs ids acc = Inr (st, ids')"
  using assms
proof (induction rs arbitrary: ids acc)
  case Nil
  then show ?case by simp
next
  case (Cons r rs)
  let ?c = "py_str (kod r)"
  show ?case
  proof (cases "?c \<in> set ids")
    case False
    have "\<forall>c\<in>set ids. \<forall>r'. find (\<lambda>r. py_str (kod r) = c) rs = Some r' \<longrightarrow>
           (\<exists>k. resolve_stock (kolichestvo r') = Inr k)"
    proof (intro ballI allI impI)
      fix c r' assume c: "c \<in> set ids" and f: "find (\<lambda>r. py_str (kod r) = c) rs = Some r'"
      from c False have "?c \<noteq> c" by auto
      then have "find (\<lambda>r. py_str (kod r) = c) (r # rs) = Some r'" using f by simp
      then show "\<exists>k. resolve_stock (kolichestvo r') = Inr k" using Cons.prems(2) c by blast
    qed
    from Cons.IH [OF Cons.prems(1) this, of acc] show ?thesis using False by simp
  next
    case True
    have "find (\<lambda>r. py_str (kod r) = ?c) (r # rs) = Some r" by simp
    then obtain k where k: "resolve_stock (kolichestvo r) = Inr k"
      using Cons.prems(2) True by blast
    let ?ids = "remove1 ?c ids"
    have d: "distinct ?ids" using Cons.prems(1) by simp
    have "\<forall>c\<in>set ?ids. \<forall>r'. find (\<lambda>r. py_str (kod r) = c) rs = Some r' \<longrightarrow>
           (\<exists>k. resolve_stock (kolichestvo r') = Inr k)"
    proof (intro ballI allI impI)
      fix c r' assume c: "c \<in> set ?ids" and f: "find (\<lambda>r. py_str (kod r) = c) rs = Some r'"
      from c Cons.prems(1) have ne: "?c \<noteq> c" and m: "c \<in> set ids" by auto
      from ne have "find (\<lambda>r. py_str (kod r) = c) (r # rs) = Some r'" using f by simp
      then show "\<exists>k. resolve_stock (kolichestvo r') = Inr k" using Cons.prems(2) m by blast
    qed
    from Cons.IH [OF d this, of "acc @ [\<lparr>offer_id = ?c, stock = k\<rparr>]"]
    show ?thesis using True k by simp
  qed
qed

lemma seller_create_stocks_returns_iff:
  assumes "distinct ids"
  shows "(\<exists>stocks left. seller_create_stocks rs ids = Inr (stocks, left))
     \<longleftrightarrow> (\<forall>c\<in>set ids. \<forall>r. find (\<lambda>r. py_str (kod r) = c) rs = Some r \<longrightarrow>
           (\<exists>k. resolve_stock (kolichestvo r) = Inr k))"
proof
  assume "\<exists>stocks left. seller_create_stocks rs ids = Inr (stocks, left)"
  then obtain stocks left where c: "seller_create_stocks rs ids = Inr (stocks, left)" by blast
  show "\<forall>c\<in>set ids. \<forall>r. find (\<lambda>r. py_str (kod r) = c) rs = Some r \<longrightarrow>
           (\<exists>k. resolve_stock (kolichestvo r) = Inr k)"
  proof (intro ballI allI impI)
    fix x r assume x: "x \<in> set ids" and f: "find (\<lambda>r. py_str (kod r) = x) rs = Some r"
    from x seller_create_stocks_ids(1) [OF assms c]
    have "x \<in> offer_id ` set stocks" by simp
    then obtain s where s: "s \<in> set stocks" "offer_id s = x" by blast
    from seller_create_stocks_distinct(3) [OF assms c] s(1)
    have "case find (\<lambda>r. py_str (kod r) = offer_id s) rs of
        None \<Rightarrow> stock s = 0
      | Some r \<Rightarrow> resolve_stock (kolichestvo r) = Inr (stock s)" by blast
    then show "\<exists>k. resolve_stock (kolichestvo r) = Inr k" using f s(2) by auto
  qed
next
  assume "\<forall>c\<in>set ids. \<forall>r. find (\<lambda>r. py_str (kod r) = c) rs = Some r \<longrightarrow>
           (\<exists>k. resolve_stock (kolichestvo r) = Inr k)"
  from seller_stocks_loop_returns [OF assms this, of "[]"]
  show "\<exists>stocks left. seller_create_stocks rs ids = Inr (stocks, left)"
    by (auto simp: seller_create_stocks_def)
qed

lemma market_create_stocks_returns_iff:
  assumes "distinct ids"
  shows "(\<exists>mstocks left. market_create_stocks w d rs ids = Inr (mstocks, left))
     \<longleftrightarrow> (\<forall>c\<in>set ids. \<forall>r. find (\<lambda>r. py_str (kod r) = c) rs = Some r \<longrightarrow>
           (\<exists>k. resolve_stock (kolichestvo r) = Inr k))"
proof -
  have "(\<exists>mstocks left. market_create_stocks w d rs ids = Inr (mstocks, left))
      \<longleftrightarrow> (\<exists>stocks left. seller_create_stocks rs ids = Inr (stocks, left))"
    by (cases "seller_create_stocks rs ids") (auto simp: market_create_stocks_seller)
  then show ?thesis using seller_create_stocks_returns_iff [OF assms] by simp
qed

lemma count_distinct_map:
  "distinct (map f xs) \<Longrightarrow>
     length (filter (\<lambda>x. f x = c) xs) = (if c \<in> set (map f xs) then 1 else 0)"
  by (induction xs) auto

lemma to_market_fields [simp]:
  "sku (to_market w d s) = offer_id s"
  "warehouseId (to_market w d s) = w"
  "stock_items (to_market w d s) = [\<lparr>count = stock s, item_type = ''FIT'', updatedAt = d\<rparr>]"
  by (simp_all add: to_market_def)

lemma market_create_stocks_props:
  assumes "distinct ids" "market_create_stocks w d rs ids = Inr (mstocks, left)"
  shows "map sku mstocks = filter (\<lambda>c. c \<in> set ids) (first_occurrences (codes rs))
           @ filter (\<lambda>i. i \<notin> set (codes rs)) ids"
    and "set (map sku mstocks) = set ids"
    and "distinct (map sku mstocks)"
    and "\<forall>m\<in>set mstocks.
           case find (\<lambda>r. py_str (kod r) = sku m) rs of
             None \<Rightarrow> stock_items m = [\<lparr>count = 0, item_type = ''FIT'', updatedAt = d\<rparr>]
           | Some r \<Rightarrow> \<exists>k. resolve_stock (kolichestvo r) = Inr k
               \<and> stock_items m = [\<lparr>count = k, item_type = ''FIT'', updatedAt = d\<rparr>]"
proof -
  from assms(2) obtain st where c: "seller_create_stocks rs ids = Inr (st, left)"
    and m: "mstocks = map (to_market w d) st"
    by (auto simp: market_create_stocks_seller split: sum.splits prod.splits)
  have sk: "map sku mstocks = map offer_id st" unfolding m by (simp add: o_def)
  show "set (map sku mstocks) = set ids"
    unfolding sk by (rule seller_create_stocks_ids(1) [OF assms(1) c])
  show "distinct (map sku mstocks)"
    unfolding sk by (rule seller_create_stocks_ids(2) [OF assms(1) c])
  show "map sku mstocks = filter (\<lambda>c. c \<in> set ids) (first_occurrences (codes rs))
        @ filter (\<lambda>i. i \<notin> set (codes rs)) ids"
    unfolding sk by (rule seller_create_stocks_distinct(1) [OF assms(1) c])
  show "\<forall>m\<in>set mstocks.
      case find (\<lambda>r. py_str (kod r) = sku m) rs of
        None \<Rightarrow> stock_items m = [\<lparr>count = 0, item_type = ''FIT'', updatedAt = d\<rparr>]
      | Some r \<Rightarrow> \<exists>k. resolve_stock (kolichestvo r) = Inr k
          \<and> stock_items m = [\<lparr>count = k, item_type = ''FIT'', updatedAt = d\<rparr>]"
  proof
    fix x assume "x \<in> set mstocks"
    then obtain s where s: "s \<in> set st" "x = to_market w d s" unfolding m by auto
    from seller_create_stocks_distinct(3) [OF assms(1) c] s(1)
    have "case find (\<lambda>r. py_str (kod r) = offer_id s) rs of
        None \<Rightarrow> stock s = 0
      | Some r \<Rightarrow> resolve_stock (kolichestvo r) = Inr (stock s)" by blast
    then show "case find (\<lambda>r. py_str (kod r) = sku x) rs of
        None \<Rightarrow> stock_items x = [\<lparr>count = 0, item_type = ''FIT'', updatedAt = d\<rparr>]
      | Some r \<Rightarrow> \<exists>k. resolve_stock (kolichestvo r) = Inr k
          \<and> stock_items x = [\<lparr>count = k, item_type = ''FIT'', updatedAt = d\<rparr>]"
      unfolding s(2) by (simp split: option.splits)
  qed
qed

lemma resolve_stock_simps:
  "resolve_stock (PStr ''>10'') = Inr 100"
  "resolve_stock (PStr ''1'') = Inr 0"
  by (simp_all add: resolve_stock_def)

text \<open>
  Claim C1. For a list of known identifiers without repetition, whatever the feed (repeated
  codes, codes the catalog does not know), the records \<open>create_stocks\<close> returns carry exactly the
  known identifiers: first the codes of the feed that are known, in the order of their first
  occurrence, then the identifiers no row of the feed mentions, in catalog order. A record whose
  identifier occurs in the feed carries the count resolved from the first row with that code,
  every other record the count 0. The call returns its records exactly when the quantity of the
  first row of every known code can be resolved. This holds for seller.py and for market.py.
\<close>

theorem create_stocks_complete:
  assumes "distinct offer_ids"
  shows "((\<exists>stocks left. seller_create_stocks rs offer_ids = Inr (stocks, left))
          \<longleftrightarrow> (\<forall>c\<in>set offer_ids. \<forall>r. find (\<lambda>r. py_str (kod r) = c) rs = Some r \<longrightarrow>
                 (\<exists>k. resolve_stock (kolichestvo r) = Inr k)))
       \<and> (seller_create_stocks rs offer_ids = Inr (stocks, left) \<longrightarrow>
            set (map offer_id stocks) = set offer_ids
          \<and> map offer_id stocks =
              filter (\<lambda>c. c \<in> set offer_ids) (first_occurrences (codes rs))
                @ filter (\<lambda>i. i \<notin> set (codes rs)) offer_ids
          \<and> (\<forall>s\<in>set stocks.
                case find (\<lambda>r. py_str (kod r) = offer_id s) rs of
                  None \<Rightarrow> stock s = 0
                | Some r \<Rightarrow> resolve_stock (kolichestvo r) = Inr (stock s)))
       \<and> ((\<exists>mstocks left. market_create_stocks w d rs offer_ids = Inr (mstocks, left))
          \<longleftrightarrow> (\<forall>c\<in>set offer_ids. \<forall>r. find (\<lambda>r. py_str (kod r) = c) rs = Some r \<longrightarrow>
                 (\<exists>k. resolve_stock (kolichestvo r) = Inr k)))
       \<and> (market_create_stocks w d rs offer_ids = Inr (mstocks, left') \<longrightarrow>
            set (map sku mstocks) = set offer_ids
          \<and> map sku mstocks =
              filter (\<lambda>c. c \<in> set offer_ids) (first_occurrences (codes rs))
                @ filter (\<lambda>i. i \<notin> set (codes rs)) offer_ids
          \<and> (\<forall>m\<in>set mstocks.
                warehouseId m = w
              \<and> (case find (\<lambda>r. py_str (kod r) = sku m) rs of
                  None \<Rightarrow> stock_items m = [\<lparr>count = 0, item_type = ''FIT'', updatedAt = d\<rparr>]
                | Some r \<Rightarrow> \<exists>k. resolve_stock (kolichestvo r) = Inr k
                    \<and> stock_items m = [\<lparr>count = k, item_type = ''FIT'', updatedAt = d\<rparr>])))"
proof (intro conjI impI)
  show "(\<exists>stocks left. seller_create_stocks rs offer_ids = Inr (stocks, left))
      \<longleftrightarrow> (\<forall>c\<in>set offer_ids. \<forall>r. find (\<lambda>r. py_str (kod r) = c) rs = Some r \<longrightarrow>
             (\<exists>k. resolve_stock (kolichestvo r) = Inr k))"
    by (rule seller_create_stocks_returns_iff [OF assms])
  show "(\<exists>mstocks left. market_create_stocks w d rs offer_ids = Inr (mstocks, left))
      \<longleftrightarrow> (\<forall>c\<in>set offer_ids. \<forall>r. find (\<lambda>r. py_str (kod r) = c) rs = Some r \<longrightarrow>
             (\<exists>k. resolve_stock (kolichestvo r) = Inr k))"
    by (rule market_create_stocks_returns_iff [OF assms])
next
  assume c: "seller_create_stocks rs offer_ids = Inr (stocks, left)"
  show "set (map offer_id stocks) = set offer_ids"
    by (rule seller_create_stocks_ids(1) [OF assms c])
  show "map offer_id stocks =
      filter (\<lambda>c. c \<in> set offer_ids) (first_occurrences (codes rs))
        @ filter (\<lambda>i. i \<notin> set (codes rs)) offer_ids"
    by (rule seller_create_stocks_distinct(1) [OF assms c])
  show "\<forall>s\<in>set stocks.
      case find (\<lambda>r. py_str (kod r) = offer_id s) rs of
        None \<Rightarrow> stock s = 0
      | Some r \<Rightarrow> resolve_stock (kolichestvo r) = Inr (stock s)"
    by (rule seller_create_stocks_distinct(3) [OF assms c])
next
  assume c: "market_create_stocks w d rs offer_ids = Inr (mstocks, left')"
  show "set (map sku mstocks) = set offer_ids"
    by (rule market_create_stocks_props(2) [OF assms c])
  show "map sku mstocks =
      filter (\<lambda>c. c \<in> set offer_ids) (first_occurrences (codes rs))
        @ filter (\<lambda>i. i \<notin> set (codes rs)) offer_ids"
    by (rule market_create_stocks_props(1) [OF assms c])
  have wh: "\<forall>m\<in>set mstocks. warehouseId m = w"
    using c by (auto simp: market_create_stocks_seller split: sum.splits prod.splits)
  then show "\<forall>m\<in>set mstocks.
        warehouseId m = w
      \<and> (case find (\<lambda>r. py_str (kod r) = sku m) rs of
          None \<Rightarrow> stock_items m = [\<lparr>count = 0, item_type = ''FIT'', updatedAt = d\<rparr>]
        | Some r \<Rightarrow> \<exists>k. resolve_stock (kolichestvo r) = Inr k
            \<and> stock_items m = [\<lparr>count = k, item_type = ''FIT'', updatedAt = d\<rparr>])"
    using market_create_stocks_props(4) [OF assms c] by blast
qed

theorem create_stocks_complete_witness:
  "distinct [''A'', ''B'', ''C'']
   \<and> seller_create_stocks
        [\<lparr>kod = PStr ''A'', kolichestvo = PStr ''>10'', tsena = PStr ''100.00 x''\<rparr>,
         \<lparr>kod = PStr ''B'', kolichestvo = PStr ''1'', tsena = PStr ''50.00 x''\<rparr>,
         \<lparr>kod = PStr ''A'', kolichestvo = PStr ''5'', tsena = PStr ''1.00 x''\<rparr>,
         \<lparr>kod = PStr ''Z'', kolichestvo = PStr ''7'', tsena = PStr ''2.00 x''\<rparr>]
        [''A'', ''B'', ''C'']
      = Inr ([\<lparr>offer_id = ''A'', stock = 100\<rparr>, \<lparr>offer_id = ''B'', stock = 0\<rparr>,
              \<lparr>offer_id = ''C'', stock = 0\<rparr>], [''C''])
   \<and> set (map offer_id [\<lparr>offer_id = ''A'', stock = 100\<rparr>, \<lparr>offer_id = ''B'', stock = 0\<rparr>,
              \<lparr>offer_id = ''C'', stock = 0\<rparr>]) = set [''A'', ''B'', ''C'']
   \<and> market_create_stocks ''w'' ''d''
        [\<lparr>kod = PStr ''A'', kolichestvo = PStr ''>10'', tsena = PStr ''100.00 x''\<rparr>,
         \<lparr>kod = PStr ''B'', kolichestvo = PStr ''1'', tsena = PStr ''50.00 x''\<rparr>,
         \<lparr>kod = PStr ''A'', kolichestvo = PStr ''5'', tsena = PStr ''1.00 x''\<rparr>,
         \<lparr>kod = PStr ''Z'', kolichestvo = PStr ''7'', tsena = PStr ''2.00 x''\<rparr>]
        [''A'', ''B'', ''C'']
      = Inr ([\<lparr>sku = ''A'', warehouseId = ''w'',
                stock_items = [\<lparr>count = 100, item_type = ''FIT'', updatedAt = ''d''\<rparr>]\<rparr>,
              \<lparr>sku = ''B'', warehouseId = ''w'',
                stock_items = [\<lparr>count = 0, item_type = ''FIT'', updatedAt = ''d''\<rparr>]\<rparr>,
              \<lparr>sku = ''C'', warehouseId = ''w'',
                stock_items = [\<lparr>count = 0, item_type = ''FIT'', updatedAt = ''d''\<rparr>]\<rparr>], [''C''])
   \<and> set (map sku
        [\<lparr>sku = ''A'', warehouseId = ''w'',
            stock_items = [\<lparr>count = 100, item_type = ''FIT'', updatedAt = ''d''\<rparr>]\<rparr>,
         \<lparr>sku = ''B'', warehouseId = ''w'',
            stock_items = [\<lparr>count = 0, item_type = ''FIT'', updatedAt = ''d''\<rparr>]\<rparr>,
         \<lparr>sku = ''C'', warehouseId = ''w'',
            stock_items = [\<lparr>count = 0, item_type = ''FIT'', updatedAt = ''d''\<rparr>]\<rparr>])
      = set [''A'', ''B'', ''C'']"
proof -
  let ?rs = "[\<lparr>kod = PStr ''A'', kolichestvo = PStr ''>10'', tsena = PStr ''100.00 x''\<rparr>,
         \<lparr>kod = PStr ''B'', kolichestvo = PStr ''1'', tsena = PStr ''50.00 x''\<rparr>,
         \<lparr>kod = PStr ''A'', kolichestvo = PStr ''5'', tsena = PStr ''1.00 x''\<rparr>,
         \<lparr>kod = PStr ''Z'', kolichestvo = PStr ''7'', tsena = PStr ''2.00 x''\<rparr>]"
  let ?st = "[\<lparr>offer_id = ''A'', stock = 100\<rparr>, \<lparr>offer_id = ''B'', stock = 0\<rparr>,
              \<lparr>offer_id = ''C'', stock = 0\<rparr>]"
  let ?ms = "[\<lparr>sku = ''A'', warehouseId = ''w'',
                stock_items = [\<lparr>count = 100, item_type = ''FIT'', updatedAt = ''d''\<rparr>]\<rparr>,
              \<lparr>sku = ''B'', warehouseId = ''w'',
                stock_items = [\<lparr>count = 0, item_type = ''FIT'', updatedAt = ''d''\<rparr>]\<rparr>,
              \<lparr>sku = ''C'', warehouseId = ''w'',
                stock_items = [\<lparr>count = 0, item_type = ''FIT'', updatedAt = ''d''\<rparr>]\<rparr>]"
  have d: "distinct [''A'', ''B'', ''C'']" by simp
  have c: "seller_create_stocks ?rs [''A'', ''B'', ''C''] = Inr (?st, [''C''])"
    by (simp add: seller_create_stocks_def resolve_stock_simps)
  have m: "market_create_stocks ''w'' ''d'' ?rs [''A'', ''B'', ''C''] = Inr (?ms, [''C''])"
    by (simp add: market_create_stocks_def resolve_stock_simps)
  have a: "set (map offer_id ?st) = set [''A'', ''B'', ''C'']"
    by (rule create_stocks_complete [OF d, THEN conjunct2, THEN conjunct1, THEN mp, OF c,
          THEN conjunct1])
  have b: "set (map sku ?ms) = set [''A'', ''B'', ''C'']"
    by (rule create_stocks_complete [OF d, THEN conjunct2, THEN conjunct2, THEN conjunct2,
          THEN mp, OF m, THEN conjunct1])
  show ?thesis by (intro conjI d c a m b)
qed

section \<open>The price loops and repeated codes\<close>

lemma seller_prices_loop_ids:
  "seller_prices_loop rs ids acc = Inr prices \<Longrightarrow>
     map price_offer_id prices
       = map price_offer_id acc @ filter (\<lambda>c. c \<in> set ids) (codes rs)"
proof (induction rs arbitrary: acc)
  case Nil
  then show ?case by (simp add: codes_def)
next
  case (Cons r rs)
  show ?case
  proof (cases "py_str (kod r) \<in> set ids")
    case False
    then show ?thesis using Cons by (simp add: codes_def)
  next
    case True
    then obtain p where p: "price_conversion_val (tsena r) = Inr p"
      using Cons.prems by (cases "price_conversion_val (tsena r)") auto
    then show ?thesis using True Cons.prems Cons.IH by (simp add: codes_def)
  qed
qed

lemma market_prices_loop_ids:
  "market_prices_loop rs ids acc = Inr prices \<Longrightarrow>
     map price_id prices = map price_id acc @ filter (\<lambda>c. c \<in> set ids) (codes rs)"
proof (induction rs arbitrary: acc)
  case Nil
  then show ?case by (simp add: codes_def)
next
  case (Cons r rs)
  show ?case
  proof (cases "py_str (kod r) \<in> set ids")
    case False
    then show ?thesis using Cons by (simp add: codes_def)
  next
    case True
    then obtain p where p: "price_conversion_val (tsena r) = Inr p"
      using Cons.prems by (cases "price_conversion_val (tsena r)") auto
    then obtain v where v: "int_of_str p = Some v"
      using Cons.prems True by (cases "int_of_str p") auto
    show ?thesis using True p v Cons.prems Cons.IH by (simp add: codes_def)
  qed
qed

lemma seller_prices_loop_no_match:
  "set ids \<inter> set (codes rs) = {} \<Longrightarrow> seller_prices_loop rs ids acc = Inr acc"
  by (induction rs arbitrary: acc) (auto simp: codes_def)

lemma market_prices_loop_no_match:
  "set ids \<inter> set (codes rs) = {} \<Longrightarrow> market_prices_loop rs ids acc = Inr acc"
  by (induction rs arbitrary: acc) (auto simp: codes_def)

lemma seller_prices_loop_returns:
  "\<forall>r\<in>set rs. py_str (kod r) \<in> set ids \<longrightarrow> (\<exists>p. tsena r = PStr p) \<Longrightarrow>
     \<exists>prices. seller_prices_loop rs ids acc = Inr prices"
proof (induction rs arbitrary: acc)
  case Nil
  then show ?case by simp
next
  case (Cons r rs)
  show ?case
  proof (cases "py_str (kod r) \<in> set ids")
    case False
    then show ?thesis using Cons by simp
  next
    case True
    then obtain p where "tsena r = PStr p" using Cons.prems by auto
    then show ?thesis using True Cons by simp
  qed
qed

text \<open>
  Claim C3, as the code has it. With known identifiers free of repetition, the stock records
  carry each known identifier exactly once and no other, and the record of a code of the feed
  takes its count from the first row with that code: the loop of \<open>create_stocks\<close> removes a
  matched code from the list. The records are returned whenever the first row of every known
  code has a quantity that can be resolved. \<open>create_prices\<close> removes nothing: it returns one
  record for every row whose code is known, so a code repeated in the feed is repeated in the
  price records.
\<close>

theorem one_stock_record_per_id:
  "(distinct offer_ids \<longrightarrow> seller_create_stocks rs offer_ids = Inr (stocks, left) \<longrightarrow>
       distinct (map offer_id stocks)
     \<and> set (map offer_id stocks) = set offer_ids
     \<and> (\<forall>c. length (filter (\<lambda>s. offer_id s = c) stocks) = (if c \<in> set offer_ids then 1 else 0))
     \<and> (\<forall>s\<in>set stocks. \<forall>r. find (\<lambda>r. py_str (kod r) = offer_id s) rs = Some r \<longrightarrow>
            resolve_stock (kolichestvo r) = Inr (stock s)))
   \<and> (distinct offer_ids \<longrightarrow> market_create_stocks w d rs offer_ids = Inr (mstocks, left') \<longrightarrow>
       distinct (map sku mstocks)
     \<and> set (map sku mstocks) = set offer_ids
     \<and> (\<forall>c. length (filter (\<lambda>m. sku m = c) mstocks) = (if c \<in> set offer_ids then 1 else 0))
     \<and> (\<forall>m\<in>set mstocks. \<forall>r. find (\<lambda>r. py_str (kod r) = sku m) rs = Some r \<longrightarrow>
            (\<exists>k. resolve_stock (kolichestvo r) = Inr k
               \<and> stock_items m = [\<lparr>count = k, item_type = ''FIT'', updatedAt = d\<rparr>])))
   \<and> (distinct offer_ids \<longrightarrow>
       (\<forall>c\<in>set offer_ids. \<forall>r. find (\<lambda>r. py_str (kod r) = c) rs = Some r \<longrightarrow>
          (\<exists>k. resolve_stock (kolichestvo r) = Inr k)) \<longrightarrow>
       (\<exists>stocks left. seller_create_stocks rs offer_ids = Inr (stocks, left))
     \<and> (\<exists>mstocks left. market_create_stocks w d rs offer_ids = Inr (mstocks, left)))
   \<and> (seller_create_prices rs offer_ids = Inr prices \<longrightarrow>
       map price_offer_id prices = filter (\<lambda>c. c \<in> set offer_ids) (codes rs))
   \<and> (market_create_prices rs offer_ids = Inr mprices \<longrightarrow>
       map price_id mprices = filter (\<lambda>c. c \<in> set offer_ids) (codes rs))
   \<and> ((\<forall>r\<in>set rs. py_str (kod r) \<in> set offer_ids \<longrightarrow> (\<exists>p. tsena r = PStr p)) \<longrightarrow>
       (\<exists>prices. seller_create_prices rs offer_ids = Inr prices))"
proof (intro conjI impI)
  assume d: "distinct offer_ids" and c: "seller_create_stocks rs offer_ids = Inr (stocks, left)"
  show dm: "distinct (map offer_id stocks)" by (rule seller_create_stocks_ids(2) [OF d c])
  show sm: "set (map offer_id stocks) = set offer_ids"
    by (rule seller_create_stocks_ids(1) [OF d c])
  show "\<forall>c. length (filter (\<lambda>s. offer_id s = c) stocks) = (if c \<in> set offer_ids then 1 else 0)"
    using count_distinct_map [OF dm] unfolding sm by blast
  show "\<forall>s\<in>set stocks. \<forall>r. find (\<lambda>r. py_str (kod r) = offer_id s) rs = Some r \<longrightarrow>
            resolve_stock (kolichestvo r) = Inr (stock s)"
    using seller_create_stocks_distinct(3) [OF d c] by fastforce
next
  assume d: "distinct offer_ids"
    and c: "market_create_stocks w d rs offer_ids = Inr (mstocks, left')"
  show dm: "distinct (map sku mstocks)" by (rule market_create_stocks_props(3) [OF d c])
  show sm: "set (map sku mstocks) = set offer_ids"
    by (rule market_create_stocks_props(2) [OF d c])
  show "\<forall>c. length (filter (\<lambda>m. sku m = c) mstocks) = (if c \<in> set offer_ids then 1 else 0)"
    using count_distinct_map [OF dm] unfolding sm by blast
  show "\<forall>m\<in>set mstocks. \<forall>r. find (\<lambda>r. py_str (kod r) = sku m) rs = Some r \<longrightarrow>
            (\<exists>k. resolve_stock (kolichestvo r) = Inr k
               \<and> stock_items m = [\<lparr>count = k, item_type = ''FIT'', updatedAt = d\<rparr>])"
    using market_create_stocks_props(4) [OF d c] by fastforce
next
  assume d: "distinct offer_ids"
    and r: "\<forall>c\<in>set offer_ids. \<forall>r. find (\<lambda>r. py_str (kod r) = c) rs = Some r \<longrightarrow>
          (\<exists>k. resolve_stock (kolichestvo r) = Inr k)"
  show "\<exists>stocks left. seller_create_stocks rs offer_ids = Inr (stocks, left)"
    using seller_create_stocks_returns_iff [OF d] r by blast
  show "\<exists>mstocks left. market_create_stocks w d rs offer_ids = Inr (mstocks, left)"
    using market_create_stocks_returns_iff [OF d] r by blast
next
  assume "seller_create_prices rs offer_ids = Inr prices"
  then show "map price_offer_id prices = filter (\<lambda>c. c \<in> set offer_ids) (codes rs)"
    using seller_prices_loop_ids [of rs offer_ids "[]" prices]
    by (simp add: seller_create_prices_def)
next
  assume "market_create_prices rs offer_ids = Inr mprices"
  then show "map price_id mprices = filter (\<lambda>c. c \<in> set offer_ids) (codes rs)"
    using market_prices_loop_ids [of rs offer_ids "[]" mprices]
    by (simp add: market_create_prices_def)
next
  assume "\<forall>r\<in>set rs. py_str (kod r) \<in> set offer_ids \<longrightarrow> (\<exists>p. tsena r = PStr p)"
  then show "\<exists>prices. seller_create_prices rs offer_ids = Inr prices"
    unfolding seller_create_prices_def by (rule seller_prices_loop_returns)
qed

lemma price_conversion_1: "price_conversion ''1.00 x'' = ''1''"
  by (simp add: price_conversion_def re_sub_non_digits_def is_digit_def)

lemma price_conversion_2: "price_conversion ''2.00 x'' = ''2''"
  by (simp add: price_conversion_def re_sub_non_digits_def is_digit_def)

theorem one_stock_record_per_id_witness:
  "distinct [''A'', ''B'']
   \<and> seller_create_stocks
        [\<lparr>kod = PStr ''A'', kolichestvo = PStr ''>10'', tsena = PStr ''1.00 x''\<rparr>,
         \<lparr>kod = PStr ''A'', kolichestvo = PStr ''1'', tsena = PStr ''2.00 x''\<rparr>]
        [''A'', ''B'']
      = Inr ([\<lparr>offer_id = ''A'', stock = 100\<rparr>, \<lparr>offer_id = ''B'', stock = 0\<rparr>], [''B''])
   \<and> distinct (map offer_id [\<lparr>offer_id = ''A'', stock = 100\<rparr>, \<lparr>offer_id = ''B'', stock = 0\<rparr>])
   \<and> set (map offer_id [\<lparr>offer_id = ''A'', stock = 100\<rparr>, \<lparr>offer_id = ''B'', stock = 0\<rparr>])
      = set [''A'', ''B'']
   \<and> market_create_stocks ''w'' ''d''
        [\<lparr>kod = PStr ''A'', kolichestvo = PStr ''>10'', tsena = PStr ''1.00 x''\<rparr>,
         \<lparr>kod = PStr ''A'', kolichestvo = PStr ''1'', tsena = PStr ''2.00 x''\<rparr>]
        [''A'', ''B'']
      = Inr ([\<lparr>sku = ''A'', warehouseId = ''w'',
                stock_items = [\<lparr>count = 100, item_type = ''FIT'', updatedAt = ''d''\<rparr>]\<rparr>,
              \<lparr>sku = ''B'', warehouseId = ''w'',
                stock_items = [\<lparr>count = 0, item_type = ''FIT'', updatedAt = ''d''\<rparr>]\<rparr>], [''B''])
   \<and> set (map sku
        [\<lparr>sku = ''A'', warehouseId = ''w'',
            stock_items = [\<lparr>count = 100, item_type = ''FIT'', updatedAt = ''d''\<rparr>]\<rparr>,
         \<lparr>sku = ''B'', warehouseId = ''w'',
            stock_items = [\<lparr>count = 0, item_type = ''FIT'', updatedAt = ''d''\<rparr>]\<rparr>])
      = set [''A'', ''B'']
   \<and> seller_create_prices
        [\<lparr>kod = PStr ''A'', kolichestvo = PStr ''>10'', tsena = PStr ''1.00 x''\<rparr>,
         \<lparr>kod = PStr ''A'', kolichestvo = PStr ''1'', tsena = PStr ''2.00 x''\<rparr>]
        [''A'', ''B'']
      = Inr [\<lparr>auto_action_enabled = ''UNKNOWN'', currency_code = ''RUB'',
               price_offer_id = ''A'', old_price = ''0'', price = ''1''\<rparr>,
             \<lparr>auto_action_enabled = ''UNKNOWN'', currency_code = ''RUB'',
               price_offer_id = ''A'', old_price = ''0'', price = ''2''\<rparr>]
   \<and> map price_offer_id
        [\<lparr>auto_action_enabled = ''UNKNOWN'', currency_code = ''RUB'',
               price_offer_id = ''A'', old_price = ''0'', price = ''1''\<rparr>,
         \<lparr>auto_action_enabled = ''UNKNOWN'', currency_code = ''RUB'',
               price_offer_id = ''A'', old_price = ''0'', price = ''2''\<rparr>]
      = filter (\<lambda>c. c \<in> set [''A'', ''B''])
          (codes [\<lparr>kod = PStr ''A'', kolichestvo = PStr ''>10'', tsena = PStr ''1.00 x''\<rparr>,
                  \<lparr>kod = PStr ''A'', kolichestvo = PStr ''1'', tsena = PStr ''2.00 x''\<rparr>])"
proof -
  let ?rs = "[\<lparr>kod = PStr ''A'', kolichestvo = PStr ''>10'', tsena = PStr ''1.00 x''\<rparr>,
         \<lparr>kod = PStr ''A'', kolichestvo = PStr ''1'', tsena = PStr ''2.00 x''\<rparr>]"
  let ?st = "[\<lparr>offer_id = ''A'', stock = 100\<rparr>, \<lparr>offer_id = ''B'', stock = 0\<rparr>]"
  let ?ms = "[\<lparr>sku = ''A'', warehouseId = ''w'',
                stock_items = [\<lparr>count = 100, item_type = ''FIT'', updatedAt = ''d''\<rparr>]\<rparr>,
              \<lparr>sku = ''B'', warehouseId = ''w'',
                stock_items = [\<lparr>count = 0, item_type = ''FIT'', updatedAt = ''d''\<rparr>]\<rparr>]"
  let ?ps = "[\<lparr>auto_action_enabled = ''UNKNOWN'', currency_code = ''RUB'',
               price_offer_id = ''A'', old_price = ''0'', price = ''1''\<rparr>,
             \<lparr>auto_action_enabled = ''UNKNOWN'', currency_code = ''RUB'',
               price_offer_id = ''A'', old_price = ''0'', price = ''2''\<rparr>]"
  have d: "distinct [''A'', ''B'']" by simp
  have c: "seller_create_stocks ?rs [''A'', ''B''] = Inr (?st, [''B''])"
    by (simp add: seller_create_stocks_def resolve_stock_simps)
  have m: "market_create_stocks ''w'' ''d'' ?rs [''A'', ''B''] = Inr (?ms, [''B''])"
    by (simp add: market_create_stocks_def resolve_stock_simps)
  have p: "seller_create_prices ?rs [''A'', ''B''] = Inr ?ps"
    by (simp add: seller_create_prices_def price_conversion_1 price_conversion_2)
  note t = one_stock_record_per_id [of "[''A'', ''B'']" ?rs ?st "[''B'']" "''w''" "''d''" ?ms
      "[''B'']" ?ps]
  have a1: "distinct (map offer_id ?st)"
    by (rule t [THEN conjunct1, THEN mp, THEN mp, OF d c, THEN conjunct1])
  have a2: "set (map offer_id ?st) = set [''A'', ''B'']"
    by (rule t [THEN conjunct1, THEN mp, THEN mp, OF d c, THEN conjunct2, THEN conjunct1])
  have a3: "set (map sku ?ms) = set [''A'', ''B'']"
    by (rule t [THEN conjunct2, THEN conjunct1, THEN mp, THEN mp, OF d m, THEN conjunct2,
          THEN conjunct1])
  have a4: "map price_offer_id ?ps = filter (\<lambda>c. c \<in> set [''A'', ''B'']) (codes ?rs)"
    by (rule t [THEN conjunct2, THEN conjunct2, THEN conjunct2, THEN conjunct1, THEN mp, OF p])
  show ?thesis by (intro conjI d c a1 a2 m a3 p a4)
qed

text \<open>
  The claim as stated fails for the price records: one known identifier and a feed with two
  rows of that code give two price records for it, the second from the later row.
\<close>

theorem duplicate_price_records_counterexample:
  "seller_create_prices
     [\<lparr>kod = PStr ''A'', kolichestvo = PStr ''>10'', tsena = PStr ''1.00 x''\<rparr>,
      \<lparr>kod = PStr ''A'', kolichestvo = PStr ''1'', tsena = PStr ''2.00 x''\<rparr>]
     [''A'']
   = Inr [\<lparr>auto_action_enabled = ''UNKNOWN'', currency_code = ''RUB'',
            price_offer_id = ''A'', old_price = ''0'', price = ''1''\<rparr>,
          \<lparr>auto_action_enabled = ''UNKNOWN'', currency_code = ''RUB'',
            price_offer_id = ''A'', old_price = ''0'', price = ''2''\<rparr>]
   \<and> market_create_prices
     [\<lparr>kod = PStr ''A'', kolichestvo = PStr ''>10'', tsena = PStr ''1.00 x''\<rparr>,
      \<lparr>kod = PStr ''A'', kolichestvo = PStr ''1'', tsena = PStr ''2.00 x''\<rparr>]
     [''A'']
   = Inr [\<lparr>price_id = ''A'', price_value = 1, currencyId = ''RUR''\<rparr>,
          \<lparr>price_id = ''A'', price_value = 2, currencyId = ''RUR''\<rparr>]"
  by (simp add: seller_create_prices_def market_create_prices_def price_conversion_1
      price_conversion_2 int_of_str_1 int_of_str_2)

section \<open>Prices after stocks in main\<close>

lemma seller_main_prices:
  assumes "seller_main us up rs ids = Inr (stocks', prices)"
  shows "\<exists>stocks left. seller_create_stocks rs ids = Inr (stocks, left)
           \<and> seller_create_prices rs left = Inr prices"
  using assms
  by (auto simp: seller_main_def split: sum.splits prod.splits option.splits)

text \<open>
  Claim C4, as the code has it. When the list of known identifiers has no repetition,
  \<open>create_stocks\<close> leaves in the caller's list exactly the identifiers no row of the feed
  mentions, in catalog order (in market.py too); \<open>create_prices\<close>, called afterwards on the same
  list as \<open>main\<close> of seller.py does, then returns no price record at all.
\<close>

theorem create_prices_after_create_stocks:
  assumes "distinct offer_ids" "seller_create_stocks rs offer_ids = Inr (stocks, left)"
  shows "left = filter (\<lambda>i. i \<notin> set (codes rs)) offer_ids
       \<and> seller_create_prices rs left = Inr []
       \<and> (seller_main us up rs offer_ids = Inr (stocks', prices) \<longrightarrow> prices = [])
       \<and> market_create_stocks w d rs offer_ids = Inr (map (to_market w d) stocks, left)"
proof -
  have l: "left = filter (\<lambda>i. i \<notin> set (codes rs)) offer_ids"
    by (rule seller_create_stocks_distinct(2) [OF assms])
  then have "set left \<inter> set (codes rs) = {}" by auto
  then have p: "seller_create_prices rs left = Inr []"
    by (simp add: seller_create_prices_def seller_prices_loop_no_match)
  have "prices = []" if "seller_main us up rs offer_ids = Inr (stocks', prices)"
    using seller_main_prices [OF that] assms(2) p by auto
  moreover have "market_create_stocks w d rs offer_ids = Inr (map (to_market w d) stocks, left)"
    using assms(2) by (simp add: market_create_stocks_seller)
  ultimately show ?thesis using l p by blast
qed

theorem create_prices_after_create_stocks_witness:
  "distinct [''A'', ''B'', ''C'']
   \<and> seller_create_stocks
        [\<lparr>kod = PStr ''A'', kolichestvo = PStr ''>10'', tsena = PStr ''1.00 x''\<rparr>,
         \<lparr>kod = PStr ''B'', kolichestvo = PStr ''1'', tsena = PStr ''2.00 x''\<rparr>]
        [''A'', ''B'', ''C'']
      = Inr ([\<lparr>offer_id = ''A'', stock = 100\<rparr>, \<lparr>offer_id = ''B'', stock = 0\<rparr>,
              \<lparr>offer_id = ''C'', stock = 0\<rparr>], [''C''])
   \<and> seller_create_prices
        [\<lparr>kod = PStr ''A'', kolichestvo = PStr ''>10'', tsena = PStr ''1.00 x''\<rparr>,
         \<lparr>kod = PStr ''B'', kolichestvo = PStr ''1'', tsena = PStr ''2.00 x''\<rparr>]
        [''C'']
      = Inr []"
proof -
  let ?rs = "[\<lparr>kod = PStr ''A'', kolichestvo = PStr ''>10'', tsena = PStr ''1.00 x''\<rparr>,
         \<lparr>kod = PStr ''B'', kolichestvo = PStr ''1'', tsena = PStr ''2.00 x''\<rparr>]"
  let ?st = "[\<lparr>offer_id = ''A'', stock = 100\<rparr>, \<lparr>offer_id = ''B'', stock = 0\<rparr>,
              \<lparr>offer_id = ''C'', stock = 0\<rparr>]"
  have d: "distinct [''A'', ''B'', ''C'']" by simp
  have c: "seller_create_stocks ?rs [''A'', ''B'', ''C''] = Inr (?st, [''C''])"
    by (simp add: seller_create_stocks_def resolve_stock_simps)
  from create_prices_after_create_stocks [OF d c]
  have "seller_create_prices ?rs [''C''] = Inr []" by blast
  with d c show ?thesis by blast
qed

text \<open>
  The claim as stated fails when the list repeats an identifier: \<open>remove\<close> deletes one
  occurrence, the other stays, and \<open>create_prices\<close> on the mutated list returns a price record
  for the code \<open>create_stocks\<close> has matched, although every row of the feed was matched.
\<close>

theorem create_prices_after_create_stocks_counterexample:
  "seller_create_stocks
     [\<lparr>kod = PStr ''A'', kolichestvo = PStr ''>10'', tsena = PStr ''1.00 x''\<rparr>] [''A'', ''A'']
   = Inr ([\<lparr>offer_id = ''A'', stock = 100\<rparr>, \<lparr>offer_id = ''A'', stock = 0\<rparr>], [''A''])
   \<and> seller_create_prices
     [\<lparr>kod = PStr ''A'', kolichestvo = PStr ''>10'', tsena = PStr ''1.00 x''\<rparr>] [''A'']
   = Inr [\<lparr>auto_action_enabled = ''UNKNOWN'', currency_code = ''RUB'',
            price_offer_id = ''A'', old_price = ''0'', price = ''1''\<rparr>]"
  by (simp add: seller_create_stocks_def resolve_stock_simps seller_create_prices_def
      price_conversion_1)

section \<open>Malformed quantities\<close>

lemma resolve_stock_malformed:
  assumes "s \<noteq> ''>10''" "s \<noteq> ''1''" "int_of_str s = None"
  shows "resolve_stock (PStr s) = Inl ValueError"
  using assms by (simp add: resolve_stock_def)

text \<open>
  Claim C10, as the code has it. Let the loop of \<open>create_stocks\<close> have processed the rows
  before a row without an exception. If the code of that row is still in the working list and
  its quantity is a string that is neither of the two sentinels nor an integer literal, the call
  raises \<open>ValueError\<close> and returns no record, in seller.py and in market.py. If the code is
  no longer in the working list (or never was), the row is skipped, whatever its quantity: the
  call does what it does without that row. An integer literal is what \<open>int\<close> reads, Unicode
  blanks and digits included: the quantity 5 followed by a no-break space is not malformed and
  gives a record with the count 5.
\<close>

theorem malformed_quantity_raises:
  assumes "seller_stocks_loop pre offer_ids [] = Inr (st, ids')"
  shows "(py_str (kod r) \<in> set ids' \<longrightarrow> kolichestvo r = PStr s \<longrightarrow>
            s \<noteq> ''>10'' \<longrightarrow> s \<noteq> ''1'' \<longrightarrow> int_of_str s = None \<longrightarrow>
            seller_create_stocks (pre @ r # post) offer_ids = Inl ValueError
          \<and> market_create_stocks w d (pre @ r # post) offer_ids = Inl ValueError)
       \<and> (py_str (kod r) \<notin> set ids' \<longrightarrow>
            seller_create_stocks (pre @ r # post) offer_ids
              = seller_create_stocks (pre @ post) offer_ids
          \<and> market_create_stocks w d (pre @ r # post) offer_ids
              = market_create_stocks w d (pre @ post) offer_ids)
       \<and> seller_create_stocks
            [\<lparr>kod = PStr ''A'', kolichestvo = PStr (''5'' @ [CHR 0xC2, CHR 0xA0]),
              tsena = PStr ''1.00 x''\<rparr>] [''A'']
          = Inr ([\<lparr>offer_id = ''A'', stock = 5\<rparr>], [])"
proof (intro conjI impI)
  show "seller_create_stocks
            [\<lparr>kod = PStr ''A'', kolichestvo = PStr (''5'' @ [CHR 0xC2, CHR 0xA0]),
              tsena = PStr ''1.00 x''\<rparr>] [''A'']
          = Inr ([\<lparr>offer_id = ''A'', stock = 5\<rparr>], [])"
    using int_of_str_nbsp by (simp add: seller_create_stocks_def resolve_stock_def)
next
  assume h: "py_str (kod r) \<in> set ids'" "kolichestvo r = PStr s"
    "s \<noteq> ''>10''" "s \<noteq> ''1''" "int_of_str s = None"
  have "resolve_stock (kolichestvo r) = Inl ValueError"
    using h(2-5) by (simp add: resolve_stock_malformed)
  then have "seller_stocks_loop (r # post) ids' st = Inl ValueError"
    using h(1) by simp
  then have "seller_stocks_loop (pre @ r # post) offer_ids [] = Inl ValueError"
    using assms by (simp add: seller_stocks_loop_append)
  then show s: "seller_create_stocks (pre @ r # post) offer_ids = Inl ValueError"
    by (simp add: seller_create_stocks_def)
  then show "market_create_stocks w d (pre @ r # post) offer_ids = Inl ValueError"
    by (simp add: market_create_stocks_seller)
next
  assume "py_str (kod r) \<notin> set ids'"
  then have "seller_stocks_loop (r # post) ids' st = seller_stocks_loop post ids' st"
    by simp
  then have "seller_stocks_loop (pre @ r # post) offer_ids []
      = seller_stocks_loop (pre @ post) offer_ids []"
    using assms by (simp add: seller_stocks_loop_append)
  then show s: "seller_create_stocks (pre @ r # post) offer_ids
      = seller_create_stocks (pre @ post) offer_ids"
    by (simp add: seller_create_stocks_def)
  then show "market_create_stocks w d (pre @ r # post) offer_ids
      = market_create_stocks w d (pre @ post) offer_ids"
    by (simp add: market_create_stocks_seller)
qed

theorem malformed_quantity_raises_witness:
  "seller_stocks_loop
     [\<lparr>kod = PStr ''B'', kolichestvo = PStr ''1'', tsena = PStr ''2.00 x''\<rparr>] [''A'', ''B''] []
     = Inr ([\<lparr>offer_id = ''B'', stock = 0\<rparr>], [''A''])
   \<and> ''A'' \<in> set [''A'']
   \<and> int_of_str ''n/a'' = None
   \<and> seller_create_stocks
       [\<lparr>kod = PStr ''B'', kolichestvo = PStr ''1'', tsena = PStr ''2.00 x''\<rparr>,
        \<lparr>kod = PStr ''A'', kolichestvo = PStr ''n/a'', tsena = PStr ''1.00 x''\<rparr>]
       [''A'', ''B'']
     = Inl ValueError
   \<and> int_of_str [] = None
   \<and> market_create_stocks ''w'' ''d''
       [\<lparr>kod = PStr ''A'', kolichestvo = PStr [], tsena = PStr ''1.00 x''\<rparr>] [''A'']
     = Inl ValueError"
proof -
  let ?b = "\<lparr>kod = PStr ''B'', kolichestvo = PStr ''1'', tsena = PStr ''2.00 x''\<rparr>"
  let ?a = "\<lparr>kod = PStr ''A'', kolichestvo = PStr ''n/a'', tsena = PStr ''1.00 x''\<rparr>"
  have l: "seller_stocks_loop [?b] [''A'', ''B''] [] = Inr ([\<lparr>offer_id = ''B'', stock = 0\<rparr>], [''A''])"
    by (simp add: resolve_stock_simps)
  have m: "py_str (kod ?a) \<in> set [''A'']" by simp
  have "seller_create_stocks ([?b] @ ?a # []) [''A'', ''B''] = Inl ValueError"
    using malformed_quantity_raises [OF l, of ?a "''n/a''" "[]"] m int_of_str_na by simp
  moreover have l0: "seller_stocks_loop [] [''A''] [] = Inr ([], [''A''])" by simp
  have "market_create_stocks ''w'' ''d''
       ([] @ \<lparr>kod = PStr ''A'', kolichestvo = PStr [], tsena = PStr ''1.00 x''\<rparr> # [])
       [''A''] = Inl ValueError"
    using malformed_quantity_raises [OF l0,
        of "\<lparr>kod = PStr ''A'', kolichestvo = PStr [], tsena = PStr ''1.00 x''\<rparr>" "[]"
           "[]" "''w''" "''d''"] int_of_str_empty
    by simp
  ultimately show ?thesis using l int_of_str_na int_of_str_empty by simp
qed

text \<open>
  The claim as stated fails for a repeated code: the second row has a known code and a
  malformed quantity, but the first row has consumed the code, so the second is skipped and the
  call returns a record instead of raising.
\<close>

theorem malformed_duplicate_skipped_counterexample:
  "int_of_str ''n/a'' = None
   \<and> seller_create_stocks
       [\<lparr>kod = PStr ''A'', kolichestvo = PStr ''>10'', tsena = PStr ''1.00 x''\<rparr>,
        \<lparr>kod = PStr ''A'', kolichestvo = PStr ''n/a'', tsena = PStr ''2.00 x''\<rparr>]
       [''A'']
     = Inr ([\<lparr>offer_id = ''A'', stock = 100\<rparr>], [])"
  by (simp add: int_of_str_na seller_create_stocks_def resolve_stock_simps)

section \<open>The quantity rule\<close>








section \<open>Dispatch in batches\<close>
















section \<open>Fetching the catalog\<close>


lemma market_fetch_loop_stop:
  assumes "get_product_list k page = Inr (Some some_prod)"
    and "offerMappingEntries some_prod = Some entries"
    and "paging some_prod = Some page'"
    and "py_not page'"
  shows "market_fetch_loop get_product_list k page product_list
           = Some (Inr (product_list @ entries))"
  using assms by (subst market_fetch_loop.simps) simp

lemma market_fetch_loop_step:
  assumes "get_product_list k page = Inr (Some some_prod)"
    and "offerMappingEntries some_prod = Some entries"
    and "paging some_prod = Some page'"
    and "\<not> py_not page'"
  shows "market_fetch_loop get_product_list k page product_list
           = market_fetch_loop get_product_list (Suc k) page' (product_list @ entries)"
  using assms by (subst market_fetch_loop.simps) simp

lemma seller_fetch_loop_stop:
  assumes "get_product_list k t = Inr (Some some_prod)"
    and "items some_prod = Some its"
    and "total some_prod = Some (int (length (product_list @ its)))"
  shows "seller_fetch_loop get_product_list k t product_list = Some (Inr (product_list @ its))"
  using assms by (subst seller_fetch_loop.simps) simp

lemma seller_fetch_loop_step:
  assumes "get_product_list k t = Inr (Some some_prod)"
    and "items some_prod = Some its"
    and "total some_prod \<noteq> Some (int (length (product_list @ its)))"
  shows "seller_fetch_loop get_product_list k t product_list
           = seller_fetch_loop get_product_list (Suc k) (last_id some_prod) (product_list @ its)"
  using assms by (subst seller_fetch_loop.simps) simp

lemma short_server_diverges:
  assumes "seller_fetch_loop g k t acc = Some y"
  shows "\<not> (g = short_server \<and> length acc = (if k = 0 then 0 else 1))"
proof (rule seller_fetch_loop.raw_induct
    [where P = "\<lambda>g k t acc y. \<not> (g = short_server \<and> length acc = (if k = 0 then 0 else 1))"])
  show "seller_fetch_loop g k t acc = Some y" by (rule assms)
next
  fix loop :: "(nat \<Rightarrow> string option \<Rightarrow> error + seller_page option) \<Rightarrow> nat \<Rightarrow> string option
      \<Rightarrow> string list \<Rightarrow> (error + string list) option"
  fix g k t acc y
  assume IH: "\<And>g k t acc y. loop g k t acc = Some y \<Longrightarrow>
      \<not> (g = short_server \<and> length acc = (if k = 0 then 0 else 1))"
  assume eq: "(case g k t of
        Inl e \<Rightarrow> Some (Inl e)
      | Inr None \<Rightarrow> Some (Inl AttributeError)
      | Inr (Some some_prod) \<Rightarrow>
          (case items some_prod of
             None \<Rightarrow> Some (Inl TypeError)
           | Some its \<Rightarrow>
               if total some_prod = Some (int (length (acc @ its)))
               then Some (Inr (acc @ its))
               else loop g (Suc k) (last_id some_prod) (acc @ its))) = Some y"
  show "\<not> (g = short_server \<and> length acc = (if k = 0 then 0 else 1))"
  proof
    assume h: "g = short_server \<and> length acc = (if k = 0 then 0 else 1)"
    let ?its = "if k = 0 then [''A''] else []"
    have len: "length (acc @ ?its) = 1" using h by auto
    from eq h len
    have "loop short_server (Suc k) (Some []) (acc @ ?its) = Some y"
      by (simp add: short_server_def)
    from IH [OF this] len show False by simp
  qed
qed

text \<open>
  Claim C2, as the code has it. In market.py the loop of \<open>get_offer_ids\<close> stops at the first
  answer whose \<open>nextPageToken\<close> is absent or empty and returns the entries collected so far,
  however many they are; it does not go on and does not raise there. In seller.py the token
  does not decide: the loop stops at the answer whose \<open>total\<close> equals the number of items
  collected, and asks again after any other answer, whatever its \<open>last_id\<close>.
\<close>

theorem fetch_loop_termination:
  "(get_product_list k page = Inr (Some some_prod) \<longrightarrow>
      offerMappingEntries some_prod = Some entries \<longrightarrow>
      paging some_prod = Some page' \<longrightarrow>
      (page' = None \<or> page' = Some []) \<longrightarrow>
      market_fetch_loop get_product_list k page product_list
        = Some (Inr (product_list @ entries)))
   \<and> (g k t = Inr (Some sp) \<longrightarrow> items sp = Some its \<longrightarrow>
        total sp = Some (int (length (acc @ its))) \<longrightarrow>
        seller_fetch_loop g k t acc = Some (Inr (acc @ its)))
   \<and> (g k t = Inr (Some sp) \<longrightarrow> items sp = Some its \<longrightarrow>
        total sp \<noteq> Some (int (length (acc @ its))) \<longrightarrow>
        seller_fetch_loop g k t acc = seller_fetch_loop g (Suc k) (last_id sp) (acc @ its))"
proof (intro conjI impI)
  assume "get_product_list k page = Inr (Some some_prod)"
    "offerMappingEntries some_prod = Some entries" "paging some_prod = Some page'"
    "page' = None \<or> page' = Some []"
  then show "market_fetch_loop get_product_list k page product_list
      = Some (Inr (product_list @ entries))"
    by (intro market_fetch_loop_stop) (simp_all add: py_not_def)
next
  assume "g k t = Inr (Some sp)" "items sp = Some its"
    "total sp = Some (int (length (acc @ its)))"
  then show "seller_fetch_loop g k t acc = Some (Inr (acc @ its))"
    by (rule seller_fetch_loop_stop)
next
  assume "g k t = Inr (Some sp)" "items sp = Some its"
    "total sp \<noteq> Some (int (length (acc @ its)))"
  then show "seller_fetch_loop g k t acc
      = seller_fetch_loop g (Suc k) (last_id sp) (acc @ its)"
    by (rule seller_fetch_loop_step)
qed

theorem fetch_loop_termination_witness:
  "market_get_offer_ids market_two_pages = Some (Inr [''A'', ''B'', ''C''])
   \<and> seller_get_offer_ids seller_two_pages = Some (Inr [''A'', ''B''])"
proof -
  let ?m2 = "\<lparr>offerMappingEntries = Some [''C''], paging = Some None\<rparr>"
  have "market_fetch_loop market_two_pages (Suc 0) (Some ''p2'') [''A'', ''B'']
      = Some (Inr ([''A'', ''B''] @ [''C'']))"
    using fetch_loop_termination
      [of market_two_pages "Suc 0" "Some ''p2''" ?m2 "[''C'']" None "[''A'', ''B'']"]
    by (simp add: market_two_pages_def)
  moreover have "market_fetch_loop market_two_pages 0 (Some []) []
      = market_fetch_loop market_two_pages (Suc 0) (Some ''p2'') ([] @ [''A'', ''B''])"
    by (rule market_fetch_loop_step [where some_prod
          = "\<lparr>offerMappingEntries = Some [''A'', ''B''], paging = Some (Some ''p2'')\<rparr>"])
       (simp_all add: market_two_pages_def py_not_def)
  ultimately have m: "market_get_offer_ids market_two_pages = Some (Inr [''A'', ''B'', ''C''])"
    by (simp add: market_get_offer_ids_def)
  let ?s1 = "\<lparr>items = Some [''A''], total = Some 2, last_id = Some ''x''\<rparr>"
  let ?s2 = "\<lparr>items = Some [''B''], total = Some 2, last_id = Some []\<rparr>"
  have "seller_fetch_loop seller_two_pages 0 (Some []) []
      = seller_fetch_loop seller_two_pages (Suc 0) (last_id ?s1) ([] @ [''A''])"
    using fetch_loop_termination
      [where g = seller_two_pages and k = 0 and t = "Some []" and sp = ?s1
         and its = "[''A'']" and acc = "[]"]
    by (simp add: seller_two_pages_def)
  moreover have "seller_fetch_loop seller_two_pages (Suc 0) (Some ''x'') [''A'']
      = Some (Inr ([''A''] @ [''B'']))"
    using fetch_loop_termination
      [where g = seller_two_pages and k = "Suc 0" and t = "Some ''x''" and sp = ?s2
         and its = "[''B'']" and acc = "[''A'']"]
    by (simp add: seller_two_pages_def)
  ultimately have "seller_get_offer_ids seller_two_pages = Some (Inr [''A'', ''B''])"
    by (simp add: seller_get_offer_ids_def)
  with m show ?thesis by simp
qed

text \<open>
  The claim as stated fails for seller.py: the server \<open>short_server\<close> answers every call with
  an empty \<open>last_id\<close> and fewer items than the total it reports, and the loop never returns.
\<close>

theorem seller_fetch_never_returns_counterexample:
  "seller_get_offer_ids short_server = None"
proof (cases "seller_get_offer_ids short_server")
  case None
  then show ?thesis .
next
  case (Some y)
  then have "seller_fetch_loop short_server 0 (Some []) [] = Some y"
    by (simp add: seller_get_offer_ids_def)
  from short_server_diverges [OF this] show ?thesis by simp
qed

end
